theory Spec2Isabelle
  imports Main
begin

text \<open>
  A model of \<^verbatim>\<open>apps/heft/src/plugins/CopyFilesPlugin.ts\<close>: the resolution of copy
  operations into descriptors keyed by destination, the fingerprint of the configuration,
  the content hashes compared with the stored build info, the transfers and the write of
  the new build info. A run is a function from the state before to an optional error
  and the state after. What the module calls outside the repository is a parameter.
\<close>

section \<open>Data model of CopyFilesPlugin.ts\<close>

text \<open>
  Paths, file contents and digests are strings. An optional boolean property of a
  configuration object (\<^verbatim>\<open>flatten?: boolean\<close>) is a \<open>bool option\<close>, \<open>None\<close> standing for
  an omitted or undefined property.
\<close>

record copy_operation =
  sourcePath :: string
  fileExtensions :: "string list"
  excludeGlobs :: "string list"
  includeGlobs :: "string list"
  destinationFolders :: "string list"
  flatten :: "bool option"
  hardlink :: "bool option"

record copy_descriptor =
  sourcePath :: string
  destinationPath :: string
  hardlink :: bool

record incremental_build_info =
  configHash :: string
  inputFileVersions :: "(string \<times> string) list"

datatype error =
  Error string
  | ReadFileError string
  | CopyFilesError string string
  | CreateHardLinkError string string

datatype terminal_line = Line string | VerboseLine string

type_synonym file_store = "string \<Rightarrow> string option"

text \<open>
  The state one run reads and writes: the contents of the files and what has been
  written to the terminal. The build info is a file like any other, stored at the
  build-info path in the same file system the transfers write to.
\<close>

record world =
  files :: file_store
  terminal :: "terminal_line list"

text \<open>
  What the module imports from outside the repository's sources: the file selection of
  FileGlobSpecifier (the keys of the map it returns, in iteration order), Node's
  \<^verbatim>\<open>path\<close> and \<^verbatim>\<open>crypto\<close> modules, \<^verbatim>\<open>JSON.stringify\<close>, the two transfer primitives of
  node-core-library's \<^verbatim>\<open>FileSystem\<close>, which either reject (\<open>None\<close>) or return the new
  file contents, and the format in which a build info is written to its file and read
  back (\<open>None\<close> for a content that is not a build info).
\<close>

record env =
  getFileSelectionSpecifierPaths :: "copy_operation \<Rightarrow> file_store \<Rightarrow> string list"
  path_resolve :: "string \<Rightarrow> string \<Rightarrow> string"
  path_basename :: "string \<Rightarrow> string"
  path_relative :: "string \<Rightarrow> string \<Rightarrow> string"
  JSON_stringify :: "copy_operation \<Rightarrow> string"
  sha256_base64 :: "string \<Rightarrow> string"
  FileSystem_copyFiles :: "string \<Rightarrow> string \<Rightarrow> file_store \<Rightarrow> file_store option"
  FileSystem_createHardLink :: "string \<Rightarrow> string \<Rightarrow> file_store \<Rightarrow> file_store option"
  serializeBuildInfo :: "incremental_build_info \<Rightarrow> string"
  parseBuildInfo :: "string \<Rightarrow> incremental_build_info option"

section \<open>JavaScript containers and coercions\<close>

text \<open>\<^verbatim>\<open>!!x\<close> and the test of \<^verbatim>\<open>x ? a : b\<close> on an optional boolean.\<close>

definition truthy :: "bool option \<Rightarrow> bool" where
  "truthy b = (b = Some True)"

text \<open>
  A JavaScript \<^verbatim>\<open>Map\<close> iterates in insertion order: an association list with distinct
  keys. \<^verbatim>\<open>set\<close> replaces the value of a present key in place and appends a new key.
\<close>

fun Map_set :: "('k \<times> 'v) list \<Rightarrow> 'k \<Rightarrow> 'v \<Rightarrow> ('k \<times> 'v) list" where
  "Map_set [] k v = [(k, v)]"
| "Map_set ((k', v') # ps) k v =
     (if k' = k then (k, v) # ps else (k', v') # Map_set ps k v)"

definition Map_get :: "('k \<times> 'v) list \<Rightarrow> 'k \<Rightarrow> 'v option" where
  "Map_get m k = map_of m k"

definition Map_values :: "('k \<times> 'v) list \<Rightarrow> 'v list" where
  "Map_values m = map snd m"

text \<open>A JavaScript \<^verbatim>\<open>Set\<close>, in insertion order.\<close>

definition Set_add :: "'a list \<Rightarrow> 'a \<Rightarrow> 'a list" where
  "Set_add xs x = (if x \<in> set xs then xs else xs @ [x])"

text \<open>
  A loop whose body may throw: the first error ends it. \<^verbatim>\<open>Async.forEachAsync\<close> is run
  in the order of its input; the interleaving of its callbacks is not modelled.
\<close>

fun forEach :: "('a \<Rightarrow> 's \<Rightarrow> error + 's) \<Rightarrow> 'a list \<Rightarrow> 's \<Rightarrow> error + 's" where
  "forEach f [] s = Inr s"
| "forEach f (x # xs) s =
     (case f x s of Inl e \<Rightarrow> Inl e | Inr s' \<Rightarrow> forEach f xs s')"

text \<open>The decimal digits of a count, as a template literal prints it.\<close>

definition digit_char :: "nat \<Rightarrow> char" where
  "digit_char d = ''0123456789'' ! d"

function String_of_nat :: "nat \<Rightarrow> string" where
  "String_of_nat n =
     (if n < 10 then [digit_char n] else String_of_nat (n div 10) @ [digit_char (n mod 10)])"
  by pat_completeness auto
termination
  by (relation "measure (\<lambda>n. n)") auto

declare String_of_nat.simps [simp del]

definition dquote :: string where
  "dquote = [CHR 0x22]"

section \<open>Descriptor resolution: \<^verbatim>\<open>_getCopyDescriptorsAsync\<close>\<close>

definition resolvedDestinationPath ::
  "env \<Rightarrow> copy_operation \<Rightarrow> string \<Rightarrow> string \<Rightarrow> string" where
  "resolvedDestinationPath e copyConfiguration destinationFolderPath sourceFilePath =
     path_resolve e destinationFolderPath
       (if truthy (flatten copyConfiguration) then path_basename e sourceFilePath
        else path_relative e (copy_operation.sourcePath copyConfiguration) sourceFilePath)"

definition conflictMessage :: "string \<Rightarrow> string" where
  "conflictMessage dest =
     ''Cannot copy multiple files to the same destination '' @ dquote @ dest @ dquote @ ''.''"

text \<open>The body of the inner loop (lines 132 to 163), for one source file.\<close>

definition addCopyDescriptor ::
  "env \<Rightarrow> copy_operation \<Rightarrow> string \<Rightarrow> string \<Rightarrow>
   (string \<times> copy_descriptor) list \<Rightarrow> error + (string \<times> copy_descriptor) list" where
  "addCopyDescriptor e copyConfiguration destinationFolderPath sourceFilePath
       copyDescriptorByDestination =
     (let dest = resolvedDestinationPath e copyConfiguration destinationFolderPath sourceFilePath
      in case Map_get copyDescriptorByDestination dest of
           Some existing \<Rightarrow>
             if copy_descriptor.sourcePath existing = sourceFilePath \<and>
                copy_descriptor.hardlink existing = truthy (copy_operation.hardlink copyConfiguration)
             then Inr copyDescriptorByDestination
             else Inl (Error (conflictMessage dest))
         | None \<Rightarrow>
             Inr (Map_set copyDescriptorByDestination dest
                   \<lparr> sourcePath = sourceFilePath, destinationPath = dest,
                     hardlink = truthy (copy_operation.hardlink copyConfiguration) \<rparr>))"

definition addCopyOperation ::
  "env \<Rightarrow> file_store \<Rightarrow> copy_operation \<Rightarrow>
   (string \<times> copy_descriptor) list \<Rightarrow> error + (string \<times> copy_descriptor) list" where
  "addCopyOperation e fs copyConfiguration =
     (let sourceFiles = getFileSelectionSpecifierPaths e copyConfiguration fs
      in forEach (\<lambda>destinationFolderPath.
           forEach (addCopyDescriptor e copyConfiguration destinationFolderPath) sourceFiles)
           (destinationFolders copyConfiguration))"

definition getCopyDescriptorsAsync ::
  "env \<Rightarrow> copy_operation list \<Rightarrow> file_store \<Rightarrow> error + (string \<times> copy_descriptor) list" where
  "getCopyDescriptorsAsync e copyConfigurations fs =
     forEach (addCopyOperation e fs) copyConfigurations []"

section \<open>Build info: \<^verbatim>\<open>tryReadBuildInfoAsync\<close>, \<^verbatim>\<open>writeBuildInfoAsync\<close>\<close>

text \<open>
  Modelled from the spec: \<^verbatim>\<open>tryReadBuildInfoAsync\<close> and \<^verbatim>\<open>writeBuildInfoAsync\<close> of
  pluginFramework/IncrementalBuildInfo are not among the sources. The spec has the read
  return the record stored in the file at the path, or nothing when the file is missing
  or corrupt, and the write replace whatever the file at the path held.
\<close>

definition tryReadBuildInfoAsync :: "env \<Rightarrow> string \<Rightarrow> world \<Rightarrow> incremental_build_info option" where
  "tryReadBuildInfoAsync e buildInfoPath w =
     (case files w buildInfoPath of
        None \<Rightarrow> None
      | Some content \<Rightarrow> parseBuildInfo e content)"

definition writeBuildInfoAsync :: "env \<Rightarrow> incremental_build_info \<Rightarrow> string \<Rightarrow> world \<Rightarrow> world" where
  "writeBuildInfoAsync e buildInfo buildInfoPath w =
     w\<lparr> files := (files w)(buildInfoPath \<mapsto> serializeBuildInfo e buildInfo) \<rparr>"

section \<open>Hashing, diffing and transferring: \<^verbatim>\<open>_copyFilesInnerAsync\<close>\<close>

definition writeLine :: "string \<Rightarrow> world \<Rightarrow> world" where
  "writeLine msg w = w\<lparr> terminal := terminal w @ [Line msg] \<rparr>"

definition writeVerboseLine :: "string \<Rightarrow> world \<Rightarrow> world" where
  "writeVerboseLine msg w = w\<lparr> terminal := terminal w @ [VerboseLine msg] \<rparr>"

text \<open>Lines 196 to 199: the distinct source paths, in the order the descriptors name them.\<close>

definition allInputFiles :: "(string \<times> copy_descriptor) list \<Rightarrow> string list" where
  "allInputFiles copyDescriptors =
     fold (\<lambda>copyDescriptor acc. Set_add acc (copy_descriptor.sourcePath copyDescriptor))
       (Map_values copyDescriptors) []"

text \<open>Lines 203 to 207: read one input file and record its digest.\<close>

definition hashInputFile ::
  "env \<Rightarrow> file_store \<Rightarrow> string \<Rightarrow> (string \<times> string) list \<Rightarrow> error + (string \<times> string) list" where
  "hashInputFile e fs inputFilePath versions =
     (case fs inputFilePath of
        None \<Rightarrow> Inl (ReadFileError inputFilePath)
      | Some fileContent \<Rightarrow>
          Inr (Map_set versions inputFilePath (sha256_base64 e fileContent)))"

definition hashInputFiles ::
  "env \<Rightarrow> file_store \<Rightarrow> string list \<Rightarrow> error + (string \<times> string) list" where
  "hashInputFiles e fs inputFiles = forEach (hashInputFile e fs) inputFiles []"

text \<open>
  Line 222: \<^verbatim>\<open>oldBuildInfo?.inputFileVersions.get(sourcePath) === sourceFileHash\<close>, which is
  false when there is no old build info and when it has no entry for the path.
\<close>

definition upToDate :: "incremental_build_info option \<Rightarrow> string \<Rightarrow> string \<Rightarrow> bool" where
  "upToDate oldInfo src sourceFileHash =
     (case oldInfo of
        None \<Rightarrow> False
      | Some old \<Rightarrow> Map_get (inputFileVersions old) src = Some sourceFileHash)"

text \<open>
  Lines 214 to 227, for one descriptor. \<^verbatim>\<open>!sourceFileHash\<close> holds of a missing entry and
  of the empty string.
\<close>

definition checkCopyDescriptor ::
  "incremental_build_info option \<Rightarrow> (string \<times> string) list \<Rightarrow> copy_descriptor \<Rightarrow>
   copy_descriptor list \<Rightarrow> error + copy_descriptor list" where
  "checkCopyDescriptor oldInfo versions copyDescriptor copyDescriptorsWithWork =
     (let src = copy_descriptor.sourcePath copyDescriptor
      in case Map_get versions src of
           None \<Rightarrow> Inl (Error (''Missing hash for input file: '' @ src))
         | Some sourceFileHash \<Rightarrow>
             if sourceFileHash = [] then Inl (Error (''Missing hash for input file: '' @ src))
             else if upToDate oldInfo src sourceFileHash
             then Inr copyDescriptorsWithWork
             else Inr (copyDescriptorsWithWork @ [copyDescriptor]))"

definition getCopyDescriptorsWithWork ::
  "incremental_build_info option \<Rightarrow> (string \<times> string) list \<Rightarrow>
   (string \<times> copy_descriptor) list \<Rightarrow> error + copy_descriptor list" where
  "getCopyDescriptorsWithWork oldInfo versions copyDescriptors =
     forEach (checkCopyDescriptor oldInfo versions) (Map_values copyDescriptors) []"

text \<open>
  Lines 238 to 260, for one descriptor: the counter is incremented before the transfer
  is awaited, the verbose line is written after it.
\<close>

definition linkedLine :: "string \<Rightarrow> string \<Rightarrow> string" where
  "linkedLine src dst =
     ''Linked '' @ dquote @ src @ dquote @ '' to '' @ dquote @ dst @ dquote @ ''.''"

definition copiedLine :: "string \<Rightarrow> string \<Rightarrow> string" where
  "copiedLine src dst =
     ''Copied '' @ dquote @ src @ dquote @ '' to '' @ dquote @ dst @ dquote @ ''.''"

record transfer_state =
  copiedFileCount :: nat
  linkedFileCount :: nat
  current :: world

definition transferOne :: "env \<Rightarrow> copy_descriptor \<Rightarrow> transfer_state \<Rightarrow> error option \<times> transfer_state" where
  "transferOne e copyDescriptor st =
     (let src = copy_descriptor.sourcePath copyDescriptor;
          dst = destinationPath copyDescriptor;
          w = current st
      in if copy_descriptor.hardlink copyDescriptor then
           (let st' = st\<lparr> linkedFileCount := linkedFileCount st + 1 \<rparr>
            in case FileSystem_createHardLink e src dst (files w) of
                 None \<Rightarrow> (Some (CreateHardLinkError src dst), st')
               | Some fs' \<Rightarrow>
                   (None, st'\<lparr> current :=
                      writeVerboseLine (linkedLine src dst) (w\<lparr> files := fs' \<rparr>) \<rparr>))
         else
           (let st' = st\<lparr> copiedFileCount := copiedFileCount st + 1 \<rparr>
            in case FileSystem_copyFiles e src dst (files w) of
                 None \<Rightarrow> (Some (CopyFilesError src dst), st')
               | Some fs' \<Rightarrow>
                   (None, st'\<lparr> current :=
                      writeVerboseLine (copiedLine src dst) (w\<lparr> files := fs' \<rparr>) \<rparr>)))"

fun transferAll :: "env \<Rightarrow> copy_descriptor list \<Rightarrow> transfer_state \<Rightarrow> error option \<times> transfer_state" where
  "transferAll e [] st = (None, st)"
| "transferAll e (d # ds) st =
     (case transferOne e d st of
        (Some err, st') \<Rightarrow> (Some err, st')
      | (None, st') \<Rightarrow> transferAll e ds st')"

text \<open>Lines 264 to 267.\<close>

definition summaryLine :: "nat \<Rightarrow> nat \<Rightarrow> string" where
  "summaryLine copied linked =
     ''Copied '' @ String_of_nat copied @ '' file'' @ (if copied = 1 then [] else ''s'') @ '' and '' @
     ''linked '' @ String_of_nat linked @ '' file'' @ (if linked = 1 then [] else ''s'')"

definition nothingToDoLine :: string where
  "nothingToDoLine = ''All requested file copy operations are up to date. Nothing to do.''"

definition configChangedLine :: string where
  "configChangedLine = ''File copy configuration changed, discarding incremental state.''"

text \<open>Lines 183 to 187: the old build info that survives the comparison of fingerprints.\<close>

definition configChanged :: "env \<Rightarrow> string \<Rightarrow> string \<Rightarrow> world \<Rightarrow> bool" where
  "configChanged e cfgHash buildInfoPath w =
     (case tryReadBuildInfoAsync e buildInfoPath w of
        None \<Rightarrow> False
      | Some old \<Rightarrow> configHash old \<noteq> cfgHash)"

definition oldBuildInfo ::
  "env \<Rightarrow> string \<Rightarrow> string \<Rightarrow> world \<Rightarrow> incremental_build_info option" where
  "oldBuildInfo e cfgHash buildInfoPath w =
     (if configChanged e cfgHash buildInfoPath w then None
      else tryReadBuildInfoAsync e buildInfoPath w)"

text \<open>The state after that comparison, which prints a verbose line when it discards.\<close>

definition afterConfigCheck :: "env \<Rightarrow> string \<Rightarrow> string \<Rightarrow> world \<Rightarrow> world" where
  "afterConfigCheck e cfgHash buildInfoPath w =
     (if configChanged e cfgHash buildInfoPath w then writeVerboseLine configChangedLine w else w)"

definition copyFilesInnerAsync ::
  "env \<Rightarrow> (string \<times> copy_descriptor) list \<Rightarrow> string \<Rightarrow> string \<Rightarrow> world \<Rightarrow>
   error option \<times> world" where
  "copyFilesInnerAsync e copyDescriptors cfgHash buildInfoPath w =
     (if length copyDescriptors = 0 then (None, w)
      else
        let old = oldBuildInfo e cfgHash buildInfoPath w;
            w1 = afterConfigCheck e cfgHash buildInfoPath w
        in case hashInputFiles e (files w1) (allInputFiles copyDescriptors) of
             Inl err \<Rightarrow> (Some err, w1)
           | Inr versions \<Rightarrow>
               (case getCopyDescriptorsWithWork old versions copyDescriptors of
                  Inl err \<Rightarrow> (Some err, w1)
                | Inr copyDescriptorsWithWork \<Rightarrow>
                    if length copyDescriptorsWithWork = 0
                    then (None, writeLine nothingToDoLine w1)
                    else
                      (case transferAll e copyDescriptorsWithWork
                              \<lparr> copiedFileCount = 0, linkedFileCount = 0, current = w1 \<rparr> of
                         (Some err, st) \<Rightarrow> (Some err, current st)
                       | (None, st) \<Rightarrow>
                           (None,
                            writeBuildInfoAsync e
                              \<lparr> configHash = cfgHash, inputFileVersions = versions \<rparr>
                              buildInfoPath
                              (writeLine (summaryLine (copiedFileCount st) (linkedFileCount st))
                                 (current st))))))"

section \<open>The entry point: \<^verbatim>\<open>copyFilesAsync\<close>\<close>

text \<open>
  Lines 95 to 99: one hasher is updated with the serialization of each operation in
  turn, which digests their concatenation.
\<close>

definition computeConfigHash :: "env \<Rightarrow> copy_operation list \<Rightarrow> string" where
  "computeConfigHash e copyOperations =
     sha256_base64 e (concat (map (JSON_stringify e) copyOperations))"

definition copyFilesAsync ::
  "env \<Rightarrow> copy_operation list \<Rightarrow> string \<Rightarrow> world \<Rightarrow> error option \<times> world" where
  "copyFilesAsync e copyOperations buildInfoPath w =
     (let cfgHash = computeConfigHash e copyOperations
      in case getCopyDescriptorsAsync e copyOperations (files w) of
           Inl err \<Rightarrow> (Some err, w)
         | Inr copyDescriptorByDestination \<Rightarrow>
             copyFilesInnerAsync e copyDescriptorByDestination cfgHash buildInfoPath w)"

section \<open>A POSIX instance of the environment, for the worked examples\<close>

text \<open>
  The examples need concrete functions where the module calls Node. These follow the
  documented behaviour of \<^verbatim>\<open>path.posix\<close> on absolute paths: a path is its non-empty
  segments, \<^verbatim>\<open>.\<close> and \<^verbatim>\<open>..\<close> are resolved, \<^verbatim>\<open>resolve\<close> restarts at an absolute second
  argument, and \<^verbatim>\<open>relative\<close> climbs out of what the two paths do not share.
\<close>

fun splitPath :: "string \<Rightarrow> string list" where
  "splitPath [] = [[]]"
| "splitPath (c # cs) =
     (if c = CHR ''/'' then [] # splitPath cs
      else (case splitPath cs of [] \<Rightarrow> [[c]] | seg # segs \<Rightarrow> (c # seg) # segs))"

definition segments :: "string \<Rightarrow> string list" where
  "segments p = filter (\<lambda>seg. seg \<noteq> []) (splitPath p)"

fun normalizeSegments :: "string list \<Rightarrow> string list \<Rightarrow> string list" where
  "normalizeSegments acc [] = acc"
| "normalizeSegments acc (seg # segs) =
     (if seg = ''.'' then normalizeSegments acc segs
      else if seg = ''..'' then normalizeSegments (butlast acc) segs
      else normalizeSegments (acc @ [seg]) segs)"

definition joinSegments :: "string list \<Rightarrow> string" where
  "joinSegments segs =
     (case segs of [] \<Rightarrow> [] | seg # rest \<Rightarrow> seg @ concat (map (\<lambda>t. ''/'' @ t) rest))"

fun dropCommon :: "string list \<Rightarrow> string list \<Rightarrow> string list \<times> string list" where
  "dropCommon (x # xs) (y # ys) = (if x = y then dropCommon xs ys else (x # xs, y # ys))"
| "dropCommon xs ys = (xs, ys)"

definition posix_resolve :: "string \<Rightarrow> string \<Rightarrow> string" where
  "posix_resolve a b =
     ''/'' @ joinSegments (normalizeSegments []
        (if take 1 b = ''/'' then segments b else segments a @ segments b))"

definition posix_basename :: "string \<Rightarrow> string" where
  "posix_basename p = (case segments p of [] \<Rightarrow> [] | seg # segs \<Rightarrow> last (seg # segs))"

definition posix_relative :: "string \<Rightarrow> string \<Rightarrow> string" where
  "posix_relative from to =
     (case dropCommon (normalizeSegments [] (segments from)) (normalizeSegments [] (segments to)) of
        (up, down) \<Rightarrow> joinSegments (replicate (length up) ''..'' @ down))"

text \<open>
  The build-info file of the examples is a header line, the fingerprint, and then a line
  for the path and a line for the digest of each input file.
\<close>

definition newline :: char where
  "newline = CHR 0x0A"

fun splitLines :: "string \<Rightarrow> string list" where
  "splitLines [] = []"
| "splitLines (c # cs) =
     (if c = newline then [] # splitLines cs
      else (case splitLines cs of [] \<Rightarrow> [[c]] | l # ls \<Rightarrow> (c # l) # ls))"

fun pairUp :: "string list \<Rightarrow> (string \<times> string) list option" where
  "pairUp [] = Some []"
| "pairUp [x] = None"
| "pairUp (x # y # rest) = map_option (\<lambda>ps. (x, y) # ps) (pairUp rest)"

definition exampleSerialize :: "incremental_build_info \<Rightarrow> string" where
  "exampleSerialize b =
     ''build-info'' @ [newline] @ configHash b @ [newline] @
     concat (map (\<lambda>(path, version). path @ [newline] @ version @ [newline])
               (inputFileVersions b))"

definition exampleParse :: "string \<Rightarrow> incremental_build_info option" where
  "exampleParse content =
     (case splitLines content of
        header # cfg # rest \<Rightarrow>
          if header = ''build-info''
          then map_option (\<lambda>versions. \<lparr> configHash = cfg, inputFileVersions = versions \<rparr>)
                 (pairUp rest)
          else None
      | _ \<Rightarrow> None)"

text \<open>
  The rest of the example environment: the selection matches the include patterns as
  literal file names under the source folder, the serialization and the digest are
  injective stand-ins, and a transfer fails exactly when its source cannot be read.
\<close>

definition exampleCopy :: "string \<Rightarrow> string \<Rightarrow> file_store \<Rightarrow> file_store option" where
  "exampleCopy src dst fs =
     (case fs src of None \<Rightarrow> None | Some content \<Rightarrow> Some (fs(dst \<mapsto> content)))"

definition exampleEnv :: env where
  "exampleEnv =
     \<lparr> getFileSelectionSpecifierPaths =
         (\<lambda>c fs. map (\<lambda>g. copy_operation.sourcePath c @ ''/'' @ g) (includeGlobs c)),
       path_resolve = posix_resolve,
       path_basename = posix_basename,
       path_relative = posix_relative,
       JSON_stringify =
         (\<lambda>c. ''{'' @ copy_operation.sourcePath c @ '';'' @ concat (includeGlobs c) @ '';''
               @ concat (destinationFolders c) @ '';''
               @ (if truthy (flatten c) then ''F'' else ''f'')
               @ (if truthy (copy_operation.hardlink c) then ''H'' else ''h'') @ ''}''),
       sha256_base64 = (\<lambda>content. ''sha256:'' @ content),
       FileSystem_copyFiles = exampleCopy,
       FileSystem_createHardLink = exampleCopy,
       serializeBuildInfo = exampleSerialize,
       parseBuildInfo = exampleParse \<rparr>"


text \<open>
  The scenario of the spec: a source folder with \<^verbatim>\<open>a.txt\<close> ("hello") and \<^verbatim>\<open>b.txt\<close>
  ("world"), one operation copying both to \<^verbatim>\<open>/out\<close>, and no build info yet.
\<close>

definition exampleOperation :: copy_operation where
  "exampleOperation =
     \<lparr> copy_operation.sourcePath = ''/src'', fileExtensions = [], excludeGlobs = [],
       includeGlobs = [''a.txt'', ''b.txt''], destinationFolders = [''/out''],
       flatten = None, copy_operation.hardlink = Some False \<rparr>"

definition exampleWorld :: world where
  "exampleWorld =
     \<lparr> files = [''/src/a.txt'' \<mapsto> ''hello'', ''/src/b.txt'' \<mapsto> ''world''],
       terminal = [] \<rparr>"

definition exampleDescriptorA :: copy_descriptor where
  "exampleDescriptorA =
     \<lparr> sourcePath = ''/src/a.txt'', destinationPath = ''/out/a.txt'', hardlink = False \<rparr>"

definition exampleDescriptorB :: copy_descriptor where
  "exampleDescriptorB =
     \<lparr> sourcePath = ''/src/b.txt'', destinationPath = ''/out/b.txt'', hardlink = False \<rparr>"

definition exampleDescriptors :: "(string \<times> copy_descriptor) list" where
  "exampleDescriptors = [(''/out/a.txt'', exampleDescriptorA), (''/out/b.txt'', exampleDescriptorB)]"


definition exampleBuildInfoPath :: string where
  "exampleBuildInfoPath = ''/temp/build-info.json''"

definition exampleConfigHash :: string where
  "exampleConfigHash = computeConfigHash exampleEnv [exampleOperation]"

text \<open>The state the first run of the scenario leaves, and that state with \<^verbatim>\<open>a.txt\<close> edited.\<close>

definition exampleBuildInfo :: incremental_build_info where
  "exampleBuildInfo =
     \<lparr> configHash = exampleConfigHash,
       inputFileVersions =
         [(''/src/a.txt'', ''sha256:hello''), (''/src/b.txt'', ''sha256:world'')] \<rparr>"

definition exampleWorldAfterFirstRun :: world where
  "exampleWorldAfterFirstRun =
     \<lparr> files = [''/src/a.txt'' \<mapsto> ''hello'', ''/src/b.txt'' \<mapsto> ''world'',
                ''/out/a.txt'' \<mapsto> ''hello'', ''/out/b.txt'' \<mapsto> ''world'',
                exampleBuildInfoPath \<mapsto> exampleSerialize exampleBuildInfo],
       terminal =
         [VerboseLine (copiedLine ''/src/a.txt'' ''/out/a.txt''),
          VerboseLine (copiedLine ''/src/b.txt'' ''/out/b.txt''),
          Line ''Copied 2 files and linked 0 files''] \<rparr>"

definition exampleWorldEdited :: world where
  "exampleWorldEdited =
     exampleWorldAfterFirstRun
       \<lparr> files := (files exampleWorldAfterFirstRun)(''/src/a.txt'' \<mapsto> ''HELLO'') \<rparr>"

text \<open>
  An operation that matches nothing, a state in which \<^verbatim>\<open>b.txt\<close> cannot be read, and an
  environment in which no \<^verbatim>\<open>b.txt\<close> can be written to \<^verbatim>\<open>/out\<close> or \<^verbatim>\<open>/temp\<close>.
\<close>

definition exampleEmptyOperation :: copy_operation where
  "exampleEmptyOperation = exampleOperation\<lparr> includeGlobs := [] \<rparr>"


definition exampleDeniedEnv :: env where
  "exampleDeniedEnv =
     exampleEnv
       \<lparr> FileSystem_copyFiles :=
           (\<lambda>src dst fs.
              if dst = ''/out/b.txt'' \<or> dst = ''/temp/b.txt'' then None
              else exampleCopy src dst fs) \<rparr>"

definition exampleWorldPartial :: world where
  "exampleWorldPartial =
     \<lparr> files = [''/src/a.txt'' \<mapsto> ''hello'', ''/src/b.txt'' \<mapsto> ''world'',
                ''/out/a.txt'' \<mapsto> ''hello''],
       terminal = [VerboseLine (copiedLine ''/src/a.txt'' ''/out/a.txt'')] \<rparr>"

text \<open>
  The state after the first run when the stored build info also has an entry for a
  source that is no longer selected.
\<close>

definition exampleStaleBuildInfo :: incremental_build_info where
  "exampleStaleBuildInfo =
     \<lparr> configHash = exampleConfigHash,
       inputFileVersions =
         [(''/src/a.txt'', ''sha256:hello''), (''/src/b.txt'', ''sha256:world''),
          (''/src/c.txt'', ''sha256:gone'')] \<rparr>"

definition exampleWorldStale :: world where
  "exampleWorldStale =
     exampleWorldAfterFirstRun
       \<lparr> files := (files exampleWorldAfterFirstRun)
                    (exampleBuildInfoPath \<mapsto> exampleSerialize exampleStaleBuildInfo) \<rparr>"

text \<open>
  The flatten example of the spec, \<^verbatim>\<open>root/sub/a.txt\<close> copied to \<^verbatim>\<open>D\<close>, and the scenario's
  operation with the hardlink flag left out.
\<close>

definition exampleNestedOperation :: copy_operation where
  "exampleNestedOperation =
     \<lparr> copy_operation.sourcePath = ''/root'', fileExtensions = [], excludeGlobs = [],
       includeGlobs = [''sub/a.txt''], destinationFolders = [''/D''],
       flatten = Some False, copy_operation.hardlink = None \<rparr>"

definition exampleFlatOperation :: copy_operation where
  "exampleFlatOperation = exampleNestedOperation\<lparr> flatten := Some True \<rparr>"

definition exampleOmittedOperation :: copy_operation where
  "exampleOmittedOperation = exampleOperation\<lparr> copy_operation.hardlink := None \<rparr>"



















section \<open>Invariants of the descriptor map\<close>

definition keyed :: "(string \<times> copy_descriptor) list \<Rightarrow> bool" where
  "keyed m = (\<forall>k d. Map_get m k = Some d \<longrightarrow> destinationPath d = k)"

definition grows :: "(string \<times> copy_descriptor) list \<Rightarrow> (string \<times> copy_descriptor) list \<Rightarrow> bool" where
  "grows m m' = ((keyed m \<longrightarrow> keyed m') \<and> (\<forall>k d. Map_get m k = Some d \<longrightarrow> Map_get m' k = Some d))"


text \<open>The test of lines 217 to 226, as a predicate on descriptors.\<close>

definition needsTransfer ::
  "incremental_build_info option \<Rightarrow> (string \<times> string) list \<Rightarrow> copy_descriptor \<Rightarrow> bool" where
  "needsTransfer oldInfo versions d =
     (case Map_get versions (copy_descriptor.sourcePath d) of
        None \<Rightarrow> True
      | Some h \<Rightarrow> \<not> upToDate oldInfo (copy_descriptor.sourcePath d) h)"


definition readsBack :: "env \<Rightarrow> incremental_build_info \<Rightarrow> bool" where
  "readsBack e b = (parseBuildInfo e (serializeBuildInfo e b) = Some b)"

text \<open>The number a string of decimal digits denotes.\<close>

definition decimalValue :: "string \<Rightarrow> nat" where
  "decimalValue digits = foldl (\<lambda>acc c. 10 * acc + (of_char c - 48)) 0 digits"

section \<open>Containers and loops\<close>

lemma map_of_Map_set: "map_of (Map_set m k v) = (map_of m)(k \<mapsto> v)"
  by (induction m) auto

lemma Map_get_Map_set: "Map_get (Map_set m k v) k' = (if k' = k then Some v else Map_get m k')"
  by (simp add: Map_get_def map_of_Map_set)

lemma Map_set_fresh: "Map_get m k = None \<Longrightarrow> Map_set m k v = m @ [(k, v)]"
  by (induction m) (auto simp: Map_get_def split: if_splits)

lemma forEach_Inl_elem:
  "forEach f xs s = Inl err \<Longrightarrow> \<exists>x\<in>set xs. \<exists>s'. f x s' = Inl err"
  by (induction xs arbitrary: s) (auto split: sum.splits)

lemma forEach_append:
  "forEach f (xs @ ys) s =
     (case forEach f xs s of Inl err \<Rightarrow> Inl err | Inr s' \<Rightarrow> forEach f ys s')"
  by (induction xs arbitrary: s) (auto split: sum.splits)


text \<open>A loop's body ran on every element, between two states the loop passed through.\<close>

lemma forEach_visits:
  assumes mono: "\<And>x s s'. f x s = Inr s' \<Longrightarrow> R s s'"
    and refl: "\<And>s. R s s"
    and trans: "\<And>a b c. R a b \<Longrightarrow> R b c \<Longrightarrow> R a c"
  shows "forEach f xs s = Inr s' \<Longrightarrow>
         R s s' \<and> (\<forall>x\<in>set xs. \<exists>s1 s2. R s s1 \<and> f x s1 = Inr s2 \<and> R s2 s')"
proof (induction xs arbitrary: s)
  case Nil
  then show ?case by (simp add: refl)
next
  case (Cons x xs)
  from Cons.prems(1) obtain t where t: "f x s = Inr t" "forEach f xs t = Inr s'"
    by (auto split: sum.splits)
  have st: "R s t" using mono[of x s t] t(1) by simp
  have ih: "R t s' \<and> (\<forall>y\<in>set xs. \<exists>s1 s2. R t s1 \<and> f y s1 = Inr s2 \<and> R s2 s')"
    using Cons.IH[OF t(2)] by simp
  have "R s s'" using st ih trans by blast
  moreover have "\<exists>s1 s2. R s s1 \<and> f x s1 = Inr s2 \<and> R s2 s'"
    using refl t(1) ih by blast
  moreover have "\<forall>y\<in>set xs. \<exists>s1 s2. R s s1 \<and> f y s1 = Inr s2 \<and> R s2 s'"
    using ih st trans by blast
  ultimately show ?case by simp
qed

section \<open>Resolution\<close>

lemma grows_refl: "grows m m"
  by (simp add: grows_def)

lemma grows_trans: "grows a b \<Longrightarrow> grows b c \<Longrightarrow> grows a c"
  by (simp add: grows_def)

lemma keyed_Nil: "keyed []"
  by (simp add: keyed_def Map_get_def)

lemma addCopyDescriptor_grows:
  "addCopyDescriptor e c D s m = Inr m' \<Longrightarrow> grows m m'"
  by (auto simp: addCopyDescriptor_def Let_def grows_def keyed_def Map_get_Map_set
           split: option.splits if_splits)

lemma addCopyDescriptor_entry:
  assumes "addCopyDescriptor e c D s m = Inr m'" and "keyed m"
  shows "Map_get m' (resolvedDestinationPath e c D s) =
     Some \<lparr> sourcePath = s, destinationPath = resolvedDestinationPath e c D s,
            hardlink = truthy (copy_operation.hardlink c) \<rparr>"
  using assms
  by (auto simp: addCopyDescriptor_def Let_def Map_get_Map_set keyed_def
           split: option.splits if_splits)

lemma addCopyOperation_visits:
  assumes "addCopyOperation e fs c m = Inr m'"
  shows "grows m m' \<and>
     (\<forall>D\<in>set (destinationFolders c). \<forall>s\<in>set (getFileSelectionSpecifierPaths e c fs).
        \<exists>m1 m2. grows m m1 \<and> addCopyDescriptor e c D s m1 = Inr m2 \<and> grows m2 m')"
proof -
  let ?srcs = "getFileSelectionSpecifierPaths e c fs"
  let ?inner = "\<lambda>D. forEach (addCopyDescriptor e c D) ?srcs"
  have inner: "grows t t' \<and> (\<forall>s\<in>set ?srcs. \<exists>m1 m2. grows t m1 \<and> addCopyDescriptor e c D s m1 = Inr m2 \<and> grows m2 t')"
    if "?inner D t = Inr t'" for D t t'
    using forEach_visits[where f = "addCopyDescriptor e c D" and R = grows, OF addCopyDescriptor_grows grows_refl grows_trans that]
    by simp
  have outer: "grows m m' \<and> (\<forall>D\<in>set (destinationFolders c). \<exists>t1 t2. grows m t1 \<and> ?inner D t1 = Inr t2 \<and> grows t2 m')"
  proof (rule forEach_visits[where f = ?inner and R = grows])
    show "grows t t'" if "?inner D t = Inr t'" for D t t' using inner[OF that] by simp
    show "grows t t" for t by (rule grows_refl)
    show "grows a c" if "grows a b" "grows b c" for a b c using that by (rule grows_trans)
    show "forEach ?inner (destinationFolders c) m = Inr m'"
      using assms by (simp add: addCopyOperation_def Let_def)
  qed
  show ?thesis
  proof (intro conjI ballI)
    show "grows m m'" using outer by simp
  next
    fix D s assume D: "D \<in> set (destinationFolders c)" and s: "s \<in> set ?srcs"
    from outer D obtain t1 t2 where t: "grows m t1" "?inner D t1 = Inr t2" "grows t2 m'"
      by blast
    from inner[OF t(2)] s obtain m1 m2
      where m: "grows t1 m1" "addCopyDescriptor e c D s m1 = Inr m2" "grows m2 t2"
      by blast
    show "\<exists>m1 m2. grows m m1 \<and> addCopyDescriptor e c D s m1 = Inr m2 \<and> grows m2 m'"
      using t m grows_trans by blast
  qed
qed

lemma getCopyDescriptorsAsync_visits:
  assumes "getCopyDescriptorsAsync e ops fs = Inr m"
  shows "keyed m \<and>
     (\<forall>c\<in>set ops. \<forall>D\<in>set (destinationFolders c). \<forall>s\<in>set (getFileSelectionSpecifierPaths e c fs).
        \<exists>m1 m2. keyed m1 \<and> addCopyDescriptor e c D s m1 = Inr m2 \<and> grows m2 m)"
proof -
  have outer: "grows [] m \<and> (\<forall>c\<in>set ops. \<exists>t1 t2. grows [] t1 \<and> addCopyOperation e fs c t1 = Inr t2 \<and> grows t2 m)"
  proof (rule forEach_visits[where f = "addCopyOperation e fs" and R = grows])
    show "grows t t'" if "addCopyOperation e fs c t = Inr t'" for c t t'
      using addCopyOperation_visits[OF that] by simp
    show "grows t t" for t by (rule grows_refl)
    show "grows a c" if "grows a b" "grows b c" for a b c using that by (rule grows_trans)
    show "forEach (addCopyOperation e fs) ops [] = Inr m"
      using assms by (simp add: getCopyDescriptorsAsync_def)
  qed
  show ?thesis
  proof (intro conjI ballI)
    show "keyed m" using outer keyed_Nil by (simp add: grows_def)
  next
    fix c D s
    assume c: "c \<in> set ops" and D: "D \<in> set (destinationFolders c)"
      and s: "s \<in> set (getFileSelectionSpecifierPaths e c fs)"
    from outer c obtain t1 t2
      where t: "grows [] t1" "addCopyOperation e fs c t1 = Inr t2" "grows t2 m"
      by blast
    from addCopyOperation_visits[OF t(2)] D s obtain m1 m2
      where m: "grows t1 m1" "addCopyDescriptor e c D s m1 = Inr m2" "grows m2 t2"
      by blast
    have "keyed m1" using t(1) m(1) keyed_Nil by (simp add: grows_def)
    moreover have "grows m2 m" using m(3) t(3) by (rule grows_trans)
    ultimately show "\<exists>m1 m2. keyed m1 \<and> addCopyDescriptor e c D s m1 = Inr m2 \<and> grows m2 m"
      using m(2) by blast
  qed
qed

lemma getCopyDescriptorsAsync_entry:
  assumes "getCopyDescriptorsAsync e ops fs = Inr m"
    and "c \<in> set ops" and "D \<in> set (destinationFolders c)"
    and "s \<in> set (getFileSelectionSpecifierPaths e c fs)"
  shows "Map_get m (resolvedDestinationPath e c D s) =
     Some \<lparr> sourcePath = s, destinationPath = resolvedDestinationPath e c D s,
            hardlink = truthy (copy_operation.hardlink c) \<rparr>"
proof -
  from getCopyDescriptorsAsync_visits[OF assms(1)] assms(2-4) obtain m1 m2
    where m: "keyed m1" "addCopyDescriptor e c D s m1 = Inr m2" "grows m2 m"
    by blast
  from addCopyDescriptor_entry[OF m(2) m(1)] m(3) show ?thesis
    by (simp add: grows_def)
qed













section \<open>Hashing\<close>

lemma set_fold_Set_add:
  "set (fold (\<lambda>d acc. Set_add acc (g d)) xs acc) = set acc \<union> g ` set xs"
  by (induction xs arbitrary: acc) (auto simp: Set_add_def)

lemma distinct_fold_Set_add:
  "distinct acc \<Longrightarrow> distinct (fold (\<lambda>d acc. Set_add acc (g d)) xs acc)"
  by (induction xs arbitrary: acc) (auto simp: Set_add_def)

lemma set_allInputFiles:
  "set (allInputFiles ds) = copy_descriptor.sourcePath ` set (Map_values ds)"
  by (simp add: allInputFiles_def set_fold_Set_add)

lemma distinct_allInputFiles: "distinct (allInputFiles ds)"
  by (simp add: allInputFiles_def distinct_fold_Set_add)


lemma hashInputFile_Inr_iff:
  "hashInputFile e fs p acc = Inr V \<longleftrightarrow>
   (\<exists>c. fs p = Some c \<and> V = Map_set acc p (sha256_base64 e c))"
  by (auto simp: hashInputFile_def split: option.splits)

lemma forEach_Cons_Inr:
  "forEach f (x # xs) s = Inr s' \<longleftrightarrow> (\<exists>t. f x s = Inr t \<and> forEach f xs t = Inr s')"
  by (auto split: sum.splits)

lemma forEach_hashInputFile:
  "forEach (hashInputFile e fs) paths acc = Inr V \<Longrightarrow>
   (\<forall>p\<in>set paths. fs p \<noteq> None) \<and>
   (\<forall>p. Map_get V p = (if p \<in> set paths then map_option (sha256_base64 e) (fs p) else Map_get acc p))"
proof (induction paths arbitrary: acc)
  case Nil
  then show ?case by simp
next
  case (Cons p paths)
  from Cons.prems obtain c where c: "fs p = Some c"
    and rest: "forEach (hashInputFile e fs) paths (Map_set acc p (sha256_base64 e c)) = Inr V"
    unfolding forEach_Cons_Inr hashInputFile_Inr_iff by blast
  from Cons.IH[OF rest] c show ?case
    by (auto simp: Map_get_Map_set)
qed

lemma hashInputFiles_Inr:
  assumes "hashInputFiles e fs paths = Inr V"
  shows "\<forall>p\<in>set paths. \<exists>c. fs p = Some c \<and> Map_get V p = Some (sha256_base64 e c)"
    and "\<forall>p. p \<notin> set paths \<longrightarrow> Map_get V p = None"
  using forEach_hashInputFile[OF assms[unfolded hashInputFiles_def]]
  by (auto simp: Map_get_def)

lemma hashInputFiles_Inl:
  "hashInputFiles e fs paths = Inl err \<Longrightarrow> \<exists>p\<in>set paths. fs p = None \<and> err = ReadFileError p"
  unfolding hashInputFiles_def
  by (drule forEach_Inl_elem) (auto simp: hashInputFile_def split: option.splits)

lemma map_fst_Map_set_fresh:
  "k \<notin> set (map fst m) \<Longrightarrow> map fst (Map_set m k v) = map fst m @ [k]"
  by (induction m) auto

lemma forEach_hashInputFile_keys:
  "forEach (hashInputFile e fs) paths acc = Inr V \<Longrightarrow> distinct (map fst acc @ paths) \<Longrightarrow>
   map fst V = map fst acc @ paths"
proof (induction paths arbitrary: acc)
  case Nil
  then show ?case by simp
next
  case (Cons p paths)
  from Cons.prems(1) obtain c where c: "fs p = Some c"
    and rest: "forEach (hashInputFile e fs) paths (Map_set acc p (sha256_base64 e c)) = Inr V"
    unfolding forEach_Cons_Inr hashInputFile_Inr_iff by blast
  have fresh: "p \<notin> set (map fst acc)" using Cons.prems(2) by auto
  have "map fst V = map fst (Map_set acc p (sha256_base64 e c)) @ paths"
    using Cons.IH[OF rest] Cons.prems(2) by (simp add: map_fst_Map_set_fresh[OF fresh])
  then show ?case by (simp add: map_fst_Map_set_fresh[OF fresh])
qed

lemma hashInputFiles_keys:
  "hashInputFiles e fs paths = Inr V \<Longrightarrow> distinct paths \<Longrightarrow> map fst V = paths"
  using forEach_hashInputFile_keys[of e fs paths "[]" V] by (simp add: hashInputFiles_def)

section \<open>Diffing\<close>

lemma checkCopyDescriptor_Inr_iff:
  "checkCopyDescriptor old V d acc = Inr acc' \<longleftrightarrow>
   (\<exists>h. Map_get V (copy_descriptor.sourcePath d) = Some h \<and> h \<noteq> [] \<and>
        acc' = (if upToDate old (copy_descriptor.sourcePath d) h then acc else acc @ [d]))"
  by (auto simp: checkCopyDescriptor_def Let_def split: option.splits)

lemma checkCopyDescriptor_needsTransfer:
  "checkCopyDescriptor old V d acc = Inr acc' \<Longrightarrow>
   acc' = (if needsTransfer old V d then acc @ [d] else acc)"
  by (auto simp: checkCopyDescriptor_Inr_iff needsTransfer_def)

lemma forEach_checkCopyDescriptor:
  "forEach (checkCopyDescriptor old V) ds acc = Inr work \<Longrightarrow>
   (\<forall>d\<in>set ds. \<exists>h. Map_get V (copy_descriptor.sourcePath d) = Some h \<and> h \<noteq> []) \<and>
   work = acc @ filter (needsTransfer old V) ds"
proof (induction ds arbitrary: acc)
  case Nil
  then show ?case by simp
next
  case (Cons d ds)
  from Cons.prems obtain t where t: "checkCopyDescriptor old V d acc = Inr t"
    and rest: "forEach (checkCopyDescriptor old V) ds t = Inr work"
    unfolding forEach_Cons_Inr by blast
  have h: "\<exists>h. Map_get V (copy_descriptor.sourcePath d) = Some h \<and> h \<noteq> []"
    using t unfolding checkCopyDescriptor_Inr_iff by blast
  have t': "t = (if needsTransfer old V d then acc @ [d] else acc)"
    using t by (rule checkCopyDescriptor_needsTransfer)
  from Cons.IH[OF rest] h t' show ?case by simp
qed


lemma getCopyDescriptorsWithWork_Inr:
  assumes "getCopyDescriptorsWithWork old V ds = Inr work"
  shows "work = filter (needsTransfer old V) (Map_values ds)"
    and "\<forall>d\<in>set (Map_values ds). \<exists>h. Map_get V (copy_descriptor.sourcePath d) = Some h \<and> h \<noteq> []"
  using forEach_checkCopyDescriptor[OF assms[unfolded getCopyDescriptorsWithWork_def]]
  by simp_all


section \<open>Transferring\<close>



lemma transferOne_counts:
  "transferOne e d st = (None, st') \<Longrightarrow>
   copiedFileCount st' = copiedFileCount st + (if copy_descriptor.hardlink d then 0 else 1) \<and>
   linkedFileCount st' = linkedFileCount st + (if copy_descriptor.hardlink d then 1 else 0)"
  by (auto simp: transferOne_def Let_def split: if_splits option.splits)

lemma transferAll_counts:
  "transferAll e ds st = (None, st') \<Longrightarrow>
   copiedFileCount st' =
     copiedFileCount st + length (filter (\<lambda>d. \<not> copy_descriptor.hardlink d) ds) \<and>
   linkedFileCount st' =
     linkedFileCount st + length (filter (\<lambda>d. copy_descriptor.hardlink d) ds)"
proof (induction ds arbitrary: st)
  case Nil
  then show ?case by simp
next
  case (Cons d ds)
  obtain r1 st1 where one: "transferOne e d st = (r1, st1)" by (cases "transferOne e d st")
  have r1: "r1 = None" using Cons.prems one by (cases r1) simp_all
  then have rest: "transferAll e ds st1 = (None, st')" using Cons.prems one by simp
  from transferOne_counts[OF one[unfolded r1]] Cons.IH[OF rest] show ?case by simp
qed

section \<open>The cases of one run\<close>

lemma files_afterConfigCheck [simp]: "files (afterConfigCheck e cfg p w) = files w"
  by (simp add: afterConfigCheck_def writeVerboseLine_def)

lemma copyFilesInnerAsync_unfold:
  "ds \<noteq> [] \<Longrightarrow>
   copyFilesInnerAsync e ds cfg p w =
     (case hashInputFiles e (files w) (allInputFiles ds) of
        Inl err \<Rightarrow> (Some err, afterConfigCheck e cfg p w)
      | Inr V \<Rightarrow>
          (case getCopyDescriptorsWithWork (oldBuildInfo e cfg p w) V ds of
             Inl err \<Rightarrow> (Some err, afterConfigCheck e cfg p w)
           | Inr work \<Rightarrow>
               if work = [] then (None, writeLine nothingToDoLine (afterConfigCheck e cfg p w))
               else
                 (case transferAll e work
                         \<lparr> copiedFileCount = 0, linkedFileCount = 0,
                           current = afterConfigCheck e cfg p w \<rparr> of
                    (Some err, st) \<Rightarrow> (Some err, current st)
                  | (None, st) \<Rightarrow>
                      (None,
                       writeBuildInfoAsync e \<lparr> configHash = cfg, inputFileVersions = V \<rparr> p
                         (writeLine (summaryLine (copiedFileCount st) (linkedFileCount st))
                            (current st))))))"
  unfolding copyFilesInnerAsync_def Let_def
  by (simp split: sum.split)

lemma copyFilesInnerAsync_cases [consumes 2, case_names hashFailed missingHash upToDate
    transferFailed transferred]:
  assumes run: "copyFilesInnerAsync e ds cfg p w = (r, w')" and ne: "ds \<noteq> []"
  obtains
    (hashFailed) err where
      "hashInputFiles e (files w) (allInputFiles ds) = Inl err"
      "r = Some err" "w' = afterConfigCheck e cfg p w"
  | (missingHash) V err where
      "hashInputFiles e (files w) (allInputFiles ds) = Inr V"
      "getCopyDescriptorsWithWork (oldBuildInfo e cfg p w) V ds = Inl err"
      "r = Some err" "w' = afterConfigCheck e cfg p w"
  | (upToDate) V where
      "hashInputFiles e (files w) (allInputFiles ds) = Inr V"
      "getCopyDescriptorsWithWork (oldBuildInfo e cfg p w) V ds = Inr []"
      "r = None" "w' = writeLine nothingToDoLine (afterConfigCheck e cfg p w)"
  | (transferFailed) V work err st where
      "hashInputFiles e (files w) (allInputFiles ds) = Inr V"
      "getCopyDescriptorsWithWork (oldBuildInfo e cfg p w) V ds = Inr work" "work \<noteq> []"
      "transferAll e work \<lparr> copiedFileCount = 0, linkedFileCount = 0,
          current = afterConfigCheck e cfg p w \<rparr> = (Some err, st)"
      "r = Some err" "w' = current st"
  | (transferred) V work st where
      "hashInputFiles e (files w) (allInputFiles ds) = Inr V"
      "getCopyDescriptorsWithWork (oldBuildInfo e cfg p w) V ds = Inr work" "work \<noteq> []"
      "transferAll e work \<lparr> copiedFileCount = 0, linkedFileCount = 0,
          current = afterConfigCheck e cfg p w \<rparr> = (None, st)"
      "r = None"
      "w' = writeBuildInfoAsync e \<lparr> configHash = cfg, inputFileVersions = V \<rparr> p
              (writeLine (summaryLine (copiedFileCount st) (linkedFileCount st)) (current st))"
proof (cases "hashInputFiles e (files w) (allInputFiles ds)")
  case (Inl err)
  then have "r = Some err" "w' = afterConfigCheck e cfg p w"
    using run by (simp_all add: copyFilesInnerAsync_unfold[OF ne])
  then show ?thesis using Inl by (rule hashFailed[rotated])
next
  case V: (Inr V)
  show ?thesis
  proof (cases "getCopyDescriptorsWithWork (oldBuildInfo e cfg p w) V ds")
    case (Inl err)
    then have "r = Some err" "w' = afterConfigCheck e cfg p w"
      using run V by (simp_all add: copyFilesInnerAsync_unfold[OF ne])
    then show ?thesis using V Inl by (intro missingHash[of V err])
  next
    case work: (Inr work)
    show ?thesis
    proof (cases "work = []")
      case True
      then have "r = None" "w' = writeLine nothingToDoLine (afterConfigCheck e cfg p w)"
        using run V work by (simp_all add: copyFilesInnerAsync_unfold[OF ne])
      then show ?thesis using V work True by (intro upToDate[of V]) simp_all
    next
      case False
      obtain r1 st where t: "transferAll e work \<lparr> copiedFileCount = 0, linkedFileCount = 0,
          current = afterConfigCheck e cfg p w \<rparr> = (r1, st)"
        by (cases "transferAll e work \<lparr> copiedFileCount = 0, linkedFileCount = 0,
          current = afterConfigCheck e cfg p w \<rparr>")
      show ?thesis
      proof (cases r1)
        case None
        then have "r = None"
          "w' = writeBuildInfoAsync e \<lparr> configHash = cfg, inputFileVersions = V \<rparr> p
              (writeLine (summaryLine (copiedFileCount st) (linkedFileCount st)) (current st))"
          using run V work False t by (simp_all add: copyFilesInnerAsync_unfold[OF ne])
        then show ?thesis using V work False t None by (intro transferred[of V work st]) simp_all
      next
        case (Some err)
        then have "r = Some err" "w' = current st"
          using run V work False t by (simp_all add: copyFilesInnerAsync_unfold[OF ne])
        then show ?thesis using V work False t Some
          by (intro transferFailed[of V work err st]) simp_all
      qed
    qed
  qed
qed

section \<open>Facts about whole runs\<close>

lemma oldBuildInfo_Some_iff:
  "oldBuildInfo e cfg p w = Some prior \<longleftrightarrow>
   tryReadBuildInfoAsync e p w = Some prior \<and> configHash prior = cfg"
  by (auto simp: oldBuildInfo_def configChanged_def split: option.splits)

lemma Map_values_Nil_iff: "Map_values ds = [] \<longleftrightarrow> ds = []"
  by (simp add: Map_values_def)

lemma work_Nil_if_no_descriptors:
  "getCopyDescriptorsWithWork old V [] = Inr work \<Longrightarrow> work = []"
  by (simp add: getCopyDescriptorsWithWork_def Map_values_def)

lemma terminal_writeLine: "terminal (writeLine msg w) = terminal w @ [Line msg]"
  by (simp add: writeLine_def)

lemma terminal_writeBuildInfoAsync: "terminal (writeBuildInfoAsync e b p w) = terminal w"
  by (simp add: writeBuildInfoAsync_def)

lemma not_configChanged_if_upToDate:
  assumes ne: "ds \<noteq> []"
    and diffed: "getCopyDescriptorsWithWork (oldBuildInfo e cfg p w) V ds = Inr []"
  shows "\<not> configChanged e cfg p w"
proof
  assume changed: "configChanged e cfg p w"
  then have none: "oldBuildInfo e cfg p w = None" by (simp add: oldBuildInfo_def)
  obtain d where d: "d \<in> set (Map_values ds)"
    using ne by (cases ds) (auto simp: Map_values_def)
  have "needsTransfer None V d"
    by (simp add: needsTransfer_def upToDate_def split: option.splits)
  then have "d \<in> set (filter (needsTransfer (oldBuildInfo e cfg p w) V) (Map_values ds))"
    using d none by simp
  then show False using getCopyDescriptorsWithWork_Inr(1)[OF diffed] by simp
qed

lemma files_writeLine: "files (writeLine msg w) = files w"
  by (simp add: writeLine_def)

lemma files_writeBuildInfoAsync:
  "files (writeBuildInfoAsync e b p w) = (files w)(p \<mapsto> serializeBuildInfo e b)"
  by (simp add: writeBuildInfoAsync_def)

lemma tryReadBuildInfoAsync_cong:
  "files w2 p = files w p \<Longrightarrow> tryReadBuildInfoAsync e p w2 = tryReadBuildInfoAsync e p w"
  by (simp add: tryReadBuildInfoAsync_def)

lemma tryReadBuildInfoAsync_written:
  "readsBack e b \<Longrightarrow> tryReadBuildInfoAsync e p (writeBuildInfoAsync e b p w) = Some b"
  by (simp add: tryReadBuildInfoAsync_def writeBuildInfoAsync_def readsBack_def)





lemma hashInputFiles_entries:
  assumes hashed: "hashInputFiles e fs paths = Inr V" and dist: "distinct paths"
  shows "\<forall>(s, h)\<in>set V. \<exists>c. fs s = Some c \<and> h = sha256_base64 e c"
proof (clarify)
  fix s h assume sh: "(s, h) \<in> set V"
  have keys: "map fst V = paths" using hashed dist by (rule hashInputFiles_keys)
  then have "distinct (map fst V)" using dist by simp
  then have get: "Map_get V s = Some h" using sh by (simp add: Map_get_def)
  have "s \<in> set paths" using keys sh by (metis fst_conv image_eqI set_map)
  then obtain c where "fs s = Some c" "Map_get V s = Some (sha256_base64 e c)"
    using hashInputFiles_Inr(1)[OF hashed] by blast
  then show "\<exists>c. fs s = Some c \<and> h = sha256_base64 e c" using get by simp
qed

lemma upToDate_run_has_matching_build_info:
  assumes ne: "ds \<noteq> []"
    and diffed: "getCopyDescriptorsWithWork (oldBuildInfo e cfg p w) V ds = Inr []"
  shows "\<exists>b. tryReadBuildInfoAsync e p w = Some b \<and> configHash b = cfg"
proof -
  obtain d where d: "d \<in> set (Map_values ds)"
    using ne by (cases ds) (auto simp: Map_values_def)
  have "\<not> needsTransfer (oldBuildInfo e cfg p w) V d"
    using getCopyDescriptorsWithWork_Inr(1)[OF diffed] d
    by (metis empty_iff empty_set mem_Collect_eq set_filter)
  then obtain b where "oldBuildInfo e cfg p w = Some b"
    by (cases "oldBuildInfo e cfg p w")
       (auto simp: needsTransfer_def upToDate_def split: option.splits)
  then show ?thesis by (simp add: oldBuildInfo_Some_iff)
qed

text \<open>
  After a successful run with descriptors, the file at the build-info path reads as a
  build info of the run's fingerprint, provided the one the run writes reads back.
\<close>

lemma successful_run_build_info:
  assumes inner: "copyFilesInnerAsync e ds cfg p w = (None, w1)" and ne: "ds \<noteq> []"
    and reads: "\<forall>V. hashInputFiles e (files w) (allInputFiles ds) = Inr V \<longrightarrow>
        readsBack e \<lparr> configHash = cfg, inputFileVersions = V \<rparr>"
  shows "\<exists>b. tryReadBuildInfoAsync e p w1 = Some b \<and> configHash b = cfg"
  using inner ne
proof (cases rule: copyFilesInnerAsync_cases)
  case (upToDate V)
  have "files w1 p = files w p" using upToDate(4) by (simp add: files_writeLine)
  then have "tryReadBuildInfoAsync e p w1 = tryReadBuildInfoAsync e p w"
    by (rule tryReadBuildInfoAsync_cong)
  then show ?thesis
    using upToDate_run_has_matching_build_info[OF ne upToDate(2)] by simp
next
  case (transferred V work st)
  have "readsBack e \<lparr> configHash = cfg, inputFileVersions = V \<rparr>"
    using reads transferred(1) by blast
  then have "tryReadBuildInfoAsync e p w1 = Some \<lparr> configHash = cfg, inputFileVersions = V \<rparr>"
    using transferred(6) by (simp add: tryReadBuildInfoAsync_written)
  then show ?thesis by simp
qed simp_all

lemma matching_build_info_is_kept:
  assumes "tryReadBuildInfoAsync e p w = Some b" "configHash b = cfg"
  shows "\<not> configChanged e cfg p w" "oldBuildInfo e cfg p w = Some b"
    "afterConfigCheck e cfg p w = w"
  using assms
  by (simp_all add: configChanged_def oldBuildInfo_def afterConfigCheck_def)


lemma same_build_info_same_old:
  "files w2 p = files w p \<Longrightarrow> oldBuildInfo e cfg p w2 = oldBuildInfo e cfg p w"
  by (simp add: oldBuildInfo_def configChanged_def tryReadBuildInfoAsync_def)


lemma forEach_noop:
  "\<forall>x\<in>set xs. f x s = Inr s \<Longrightarrow> forEach f xs s = Inr s"
  by (induction xs) simp_all

lemma addCopyDescriptor_Inr_lookup:
  "addCopyDescriptor e c D s m = Inr m' \<Longrightarrow>
   \<exists>d. Map_get m' (resolvedDestinationPath e c D s) = Some d \<and>
       copy_descriptor.sourcePath d = s \<and>
       copy_descriptor.hardlink d = truthy (copy_operation.hardlink c)"
  by (auto simp: addCopyDescriptor_def Let_def Map_get_Map_set split: option.splits if_splits)

lemma addCopyDescriptor_present:
  "Map_get m (resolvedDestinationPath e c D s) = Some d \<Longrightarrow>
   copy_descriptor.sourcePath d = s \<Longrightarrow>
   copy_descriptor.hardlink d = truthy (copy_operation.hardlink c) \<Longrightarrow>
   addCopyDescriptor e c D s m = Inr m"
  by (simp add: addCopyDescriptor_def)

lemma readding_operation_is_noop:
  assumes resolved: "getCopyDescriptorsAsync e [c1] fs = Inr ds"
    and c2: "c2 = c1\<lparr> copy_operation.hardlink := h \<rparr>"
    and h: "truthy h = truthy (copy_operation.hardlink c1)"
    and sel: "getFileSelectionSpecifierPaths e c2 fs = getFileSelectionSpecifierPaths e c1 fs"
  shows "addCopyOperation e fs c2 ds = Inr ds"
proof -
  let ?srcs = "getFileSelectionSpecifierPaths e c1 fs"
  have dest: "resolvedDestinationPath e c2 D s = resolvedDestinationPath e c1 D s" for D s
    by (simp add: c2 resolvedDestinationPath_def)
  have step: "addCopyDescriptor e c2 D s ds = Inr ds"
    if "D \<in> set (destinationFolders c1)" "s \<in> set ?srcs" for D s
  proof (rule addCopyDescriptor_present)
    show "Map_get ds (resolvedDestinationPath e c2 D s) =
        Some \<lparr> sourcePath = s, destinationPath = resolvedDestinationPath e c1 D s,
               hardlink = truthy (copy_operation.hardlink c1) \<rparr>"
      using getCopyDescriptorsAsync_entry[OF resolved _ that] by (simp add: dest)
  qed (simp_all add: c2 h)
  have inner: "forEach (addCopyDescriptor e c2 D) ?srcs ds = Inr ds"
    if "D \<in> set (destinationFolders c1)" for D
    by (rule forEach_noop) (simp add: step that)
  have "forEach (\<lambda>D. forEach (addCopyDescriptor e c2 D) ?srcs) (destinationFolders c1) ds = Inr ds"
    by (rule forEach_noop) (simp add: inner)
  then show ?thesis using sel by (simp add: addCopyOperation_def c2)
qed

text \<open>The example format reads back every build info whose strings hold no line break.\<close>

lemma splitLines_line:
  "newline \<notin> set l \<Longrightarrow> splitLines (l @ newline # rest) = l # splitLines rest"
  by (induction l) auto

lemma splitLines_versions:
  "\<forall>(path, version)\<in>set V. newline \<notin> set path \<and> newline \<notin> set version \<Longrightarrow>
   splitLines (concat (map (\<lambda>(path, version). path @ [newline] @ version @ [newline]) V)) =
   concat (map (\<lambda>(path, version). [path, version]) V)"
proof (induction V)
  case Nil
  then show ?case by simp
next
  case (Cons pv V)
  obtain path version where pv: "pv = (path, version)" by (cases pv)
  have clean: "newline \<notin> set path" "newline \<notin> set version" using Cons.prems pv by auto
  have rest: "splitLines (concat (map (\<lambda>(path, version). path @ [newline] @ version @ [newline]) V)) =
      concat (map (\<lambda>(path, version). [path, version]) V)"
    using Cons.IH Cons.prems by simp
  show ?case
    using splitLines_line[OF clean(1)] splitLines_line[OF clean(2)] rest by (simp add: pv)
qed

lemma pairUp_versions: "pairUp (concat (map (\<lambda>(path, version). [path, version]) V)) = Some V"
  by (induction V) auto

lemma exampleParse_exampleSerialize:
  assumes "newline \<notin> set (configHash b)"
    and "\<forall>(path, version)\<in>set (inputFileVersions b). newline \<notin> set path \<and> newline \<notin> set version"
  shows "exampleParse (exampleSerialize b) = Some b"
proof -
  have header: "newline \<notin> set ''build-info''" by (simp add: newline_def)
  have "splitLines (exampleSerialize b) =
      ''build-info'' # configHash b # concat (map (\<lambda>(path, version). [path, version]) (inputFileVersions b))"
    unfolding exampleSerialize_def
    using splitLines_line[OF header] splitLines_line[OF assms(1)] splitLines_versions[OF assms(2)]
    by simp
  then show ?thesis by (simp add: exampleParse_def pairUp_versions)
qed


text \<open>\<open>String_of_nat\<close> writes a number in decimal, without leading zeros.\<close>

lemma digit_cases: "d < 10 \<Longrightarrow> d \<in> {0, 1, 2, 3, 4, 5, 6, 7, 8, 9 :: nat}"
  by auto

lemma digit_char_value: "d < 10 \<Longrightarrow> of_char (digit_char d) - 48 = d"
  by (drule digit_cases) (auto simp: digit_char_def)

lemma digit_char_digit: "d < 10 \<Longrightarrow> digit_char d \<in> set ''0123456789''"
  by (drule digit_cases) (auto simp: digit_char_def)

lemma digit_char_zero: "d < 10 \<Longrightarrow> digit_char d = CHR ''0'' \<Longrightarrow> d = 0"
  by (drule digit_cases) (auto simp: digit_char_def)

lemma decimalValue_snoc: "decimalValue (ds @ [c]) = 10 * decimalValue ds + (of_char c - 48)"
  by (simp add: decimalValue_def)

lemma String_of_nat_nonempty: "String_of_nat n \<noteq> []"
  by (subst String_of_nat.simps) simp

lemma String_of_nat_decimal:
  "decimalValue (String_of_nat n) = n \<and>
   set (String_of_nat n) \<subseteq> set ''0123456789'' \<and>
   (n \<noteq> 0 \<longrightarrow> hd (String_of_nat n) \<noteq> CHR ''0'')"
proof (induction n rule: String_of_nat.induct)
  case (1 n)
  show ?case
  proof (cases "n < 10")
    case True
    have s: "String_of_nat n = [digit_char n]" using True by (subst String_of_nat.simps) simp
    have "decimalValue [digit_char n] = n"
      using digit_char_value[OF True] by (simp add: decimalValue_def)
    moreover have "set [digit_char n] \<subseteq> set ''0123456789''"
      using digit_char_digit[OF True] by simp
    moreover have "n \<noteq> 0 \<longrightarrow> hd [digit_char n] \<noteq> CHR ''0''"
      using digit_char_zero[OF True] by auto
    ultimately show ?thesis by (simp only: s) 
  next
    case False
    have s: "String_of_nat n = String_of_nat (n div 10) @ [digit_char (n mod 10)]"
      using False by (subst String_of_nat.simps) simp
    have ih: "decimalValue (String_of_nat (n div 10)) = n div 10"
      "set (String_of_nat (n div 10)) \<subseteq> set ''0123456789''"
      "n div 10 \<noteq> 0 \<longrightarrow> hd (String_of_nat (n div 10)) \<noteq> CHR ''0''"
      using "1.IH"[OF False] by simp_all
    have m: "n mod 10 < 10" by simp
    have "decimalValue (String_of_nat n) = n"
      using ih(1) digit_char_value[OF m] by (simp only: s decimalValue_snoc) simp
    moreover have "set (String_of_nat n) \<subseteq> set ''0123456789''"
      using ih(2) digit_char_digit[OF m] by (simp only: s) simp
    moreover have "hd (String_of_nat n) \<noteq> CHR ''0''"
    proof -
      have "n div 10 \<noteq> 0" using False by simp
      then have "hd (String_of_nat (n div 10)) \<noteq> CHR ''0''" using ih(3) by simp
      then show ?thesis using String_of_nat_nonempty[of "n div 10"] by (simp only: s) simp
    qed
    ultimately show ?thesis by simp
  qed
qed

section \<open>The worked example, evaluated\<close>

lemma example_resolved:
  "resolvedDestinationPath exampleEnv exampleOperation ''/out'' ''/src/a.txt'' = ''/out/a.txt''"
  "resolvedDestinationPath exampleEnv exampleOperation ''/out'' ''/src/b.txt'' = ''/out/b.txt''"
  by (simp_all add: resolvedDestinationPath_def exampleEnv_def exampleOperation_def truthy_def
        posix_resolve_def posix_relative_def segments_def joinSegments_def)

lemma example_selection:
  "getFileSelectionSpecifierPaths exampleEnv exampleOperation fs = [''/src/a.txt'', ''/src/b.txt'']"
  by (simp add: exampleEnv_def exampleOperation_def)

lemma example_fields:
  "copy_operation.hardlink exampleOperation = Some False"
  "destinationFolders exampleOperation = [''/out'']"
  by (simp_all add: exampleOperation_def)

lemma example_descriptors:
  "getCopyDescriptorsAsync exampleEnv [exampleOperation] fs = Inr exampleDescriptors"
  by (simp add: getCopyDescriptorsAsync_def addCopyOperation_def example_selection
        addCopyDescriptor_def example_resolved Map_get_def exampleDescriptors_def
        exampleDescriptorA_def exampleDescriptorB_def example_fields truthy_def Let_def)





lemma example_inputs: "allInputFiles exampleDescriptors = [''/src/a.txt'', ''/src/b.txt'']"
  by (simp add: allInputFiles_def Map_values_def exampleDescriptors_def Set_add_def
        exampleDescriptorA_def exampleDescriptorB_def)

lemma example_values: "Map_values exampleDescriptors = [exampleDescriptorA, exampleDescriptorB]"
  by (simp add: Map_values_def exampleDescriptors_def)

lemma example_sources:
  "copy_descriptor.sourcePath exampleDescriptorA = ''/src/a.txt''"
  "copy_descriptor.sourcePath exampleDescriptorB = ''/src/b.txt''"
  "destinationPath exampleDescriptorA = ''/out/a.txt''"
  "destinationPath exampleDescriptorB = ''/out/b.txt''"
  "copy_descriptor.hardlink exampleDescriptorA = False"
  "copy_descriptor.hardlink exampleDescriptorB = False"
  by (simp_all add: exampleDescriptorA_def exampleDescriptorB_def)

lemma example_digest: "sha256_base64 exampleEnv content = ''sha256:'' @ content"
  by (simp add: exampleEnv_def)

lemma example_format:
  "serializeBuildInfo exampleEnv = exampleSerialize"
  "parseBuildInfo exampleEnv = exampleParse"
  "serializeBuildInfo exampleDeniedEnv = exampleSerialize"
  "parseBuildInfo exampleDeniedEnv = exampleParse"
  by (simp_all add: exampleEnv_def exampleDeniedEnv_def)

lemma example_config_hash_clean: "newline \<notin> set exampleConfigHash"
  by (simp add: exampleConfigHash_def computeConfigHash_def exampleEnv_def exampleOperation_def
        truthy_def newline_def)

lemma example_build_info_fields:
  "configHash exampleBuildInfo = exampleConfigHash"
  "inputFileVersions exampleBuildInfo =
     [(''/src/a.txt'', ''sha256:hello''), (''/src/b.txt'', ''sha256:world'')]"
  "configHash exampleStaleBuildInfo = exampleConfigHash"
  "inputFileVersions exampleStaleBuildInfo =
     [(''/src/a.txt'', ''sha256:hello''), (''/src/b.txt'', ''sha256:world''),
      (''/src/c.txt'', ''sha256:gone'')]"
  by (simp_all add: exampleBuildInfo_def exampleStaleBuildInfo_def)

lemma example_reads_back:
  "exampleParse (exampleSerialize exampleBuildInfo) = Some exampleBuildInfo"
  "exampleParse (exampleSerialize exampleStaleBuildInfo) = Some exampleStaleBuildInfo"
proof -
  show "exampleParse (exampleSerialize exampleBuildInfo) = Some exampleBuildInfo"
  proof (rule exampleParse_exampleSerialize)
    show "newline \<notin> set (configHash exampleBuildInfo)"
      by (simp add: example_build_info_fields example_config_hash_clean)
    show "\<forall>(path, version)\<in>set (inputFileVersions exampleBuildInfo).
        newline \<notin> set path \<and> newline \<notin> set version"
      by (simp add: example_build_info_fields newline_def)
  qed
  show "exampleParse (exampleSerialize exampleStaleBuildInfo) = Some exampleStaleBuildInfo"
  proof (rule exampleParse_exampleSerialize)
    show "newline \<notin> set (configHash exampleStaleBuildInfo)"
      by (simp add: example_build_info_fields example_config_hash_clean)
    show "\<forall>(path, version)\<in>set (inputFileVersions exampleStaleBuildInfo).
        newline \<notin> set path \<and> newline \<notin> set version"
      by (simp add: example_build_info_fields newline_def)
  qed
qed

lemma example_hash_first:
  "hashInputFiles exampleEnv (files exampleWorld) [''/src/a.txt'', ''/src/b.txt''] =
   Inr [(''/src/a.txt'', ''sha256:hello''), (''/src/b.txt'', ''sha256:world'')]"
  by (simp add: hashInputFiles_def hashInputFile_def exampleWorld_def example_digest)

lemma example_hash_after:
  "hashInputFiles exampleEnv (files exampleWorldAfterFirstRun) [''/src/a.txt'', ''/src/b.txt''] =
   Inr [(''/src/a.txt'', ''sha256:hello''), (''/src/b.txt'', ''sha256:world'')]"
  by (simp add: hashInputFiles_def hashInputFile_def exampleWorldAfterFirstRun_def example_digest
        exampleBuildInfoPath_def)

lemma example_hash_edited:
  "hashInputFiles exampleEnv (files exampleWorldEdited) [''/src/a.txt'', ''/src/b.txt''] =
   Inr [(''/src/a.txt'', ''sha256:HELLO''), (''/src/b.txt'', ''sha256:world'')]"
  by (simp add: hashInputFiles_def hashInputFile_def exampleWorldEdited_def
        exampleWorldAfterFirstRun_def example_digest exampleBuildInfoPath_def)

lemma example_read_edited:
  "tryReadBuildInfoAsync exampleEnv exampleBuildInfoPath exampleWorldEdited =
   Some exampleBuildInfo"
  by (simp add: tryReadBuildInfoAsync_def exampleWorldEdited_def exampleWorldAfterFirstRun_def
        exampleBuildInfoPath_def example_format example_reads_back)

lemma example_old_edited:
  "oldBuildInfo exampleEnv exampleConfigHash exampleBuildInfoPath exampleWorldEdited =
   Some exampleBuildInfo"
  by (simp add: oldBuildInfo_def configChanged_def example_read_edited example_build_info_fields)

lemma example_diff_edited:
  "getCopyDescriptorsWithWork (oldBuildInfo exampleEnv exampleConfigHash exampleBuildInfoPath exampleWorldEdited)
     [(''/src/a.txt'', ''sha256:HELLO''), (''/src/b.txt'', ''sha256:world'')] exampleDescriptors =
   Inr [exampleDescriptorA]"
  by (simp add: example_old_edited getCopyDescriptorsWithWork_def example_values
        checkCopyDescriptor_def example_sources Map_get_def upToDate_def
        example_build_info_fields)

lemma example_summary: "summaryLine 2 0 = ''Copied 2 files and linked 0 files''"
  by code_simp

lemma example_config_hash: "computeConfigHash exampleEnv [exampleOperation] = exampleConfigHash"
  by (simp add: exampleConfigHash_def)

lemma example_old_first:
  "oldBuildInfo e cfg exampleBuildInfoPath exampleWorld = None"
  "afterConfigCheck e cfg exampleBuildInfoPath exampleWorld = exampleWorld"
  by (simp_all add: oldBuildInfo_def afterConfigCheck_def configChanged_def
        tryReadBuildInfoAsync_def exampleWorld_def exampleBuildInfoPath_def)

lemma example_diff_first:
  "getCopyDescriptorsWithWork None
     [(''/src/a.txt'', ''sha256:hello''), (''/src/b.txt'', ''sha256:world'')] exampleDescriptors =
   Inr [exampleDescriptorA, exampleDescriptorB]"
  by (simp add: getCopyDescriptorsWithWork_def example_values
        checkCopyDescriptor_def example_sources Map_get_def upToDate_def
        example_build_info_fields)

lemma example_copy:
  "FileSystem_copyFiles exampleEnv = exampleCopy"
  "FileSystem_createHardLink exampleEnv = exampleCopy"
  by (simp_all add: exampleEnv_def)

lemma example_transfer_first:
  "transferAll exampleEnv [exampleDescriptorA, exampleDescriptorB]
     \<lparr> copiedFileCount = 0, linkedFileCount = 0, current = exampleWorld \<rparr> =
   (None,
    \<lparr> copiedFileCount = 2, linkedFileCount = 0,
      current =
        \<lparr> files = [''/src/a.txt'' \<mapsto> ''hello'', ''/src/b.txt'' \<mapsto> ''world'',
                   ''/out/a.txt'' \<mapsto> ''hello'', ''/out/b.txt'' \<mapsto> ''world''],
          terminal =
            [VerboseLine (copiedLine ''/src/a.txt'' ''/out/a.txt''),
             VerboseLine (copiedLine ''/src/b.txt'' ''/out/b.txt'')] \<rparr> \<rparr>)"
  by (simp add: transferOne_def example_sources example_copy exampleCopy_def exampleWorld_def
        writeVerboseLine_def Let_def)

lemma example_inner_first:
  "copyFilesInnerAsync exampleEnv exampleDescriptors exampleConfigHash exampleBuildInfoPath
     exampleWorld = (None, exampleWorldAfterFirstRun)"
proof -
  have ne: "exampleDescriptors \<noteq> []" by (simp add: exampleDescriptors_def)
  show ?thesis
    by (simp add: copyFilesInnerAsync_unfold[OF ne] example_inputs example_hash_first
          example_old_first example_diff_first example_transfer_first example_summary
          writeLine_def writeBuildInfoAsync_def exampleWorldAfterFirstRun_def
          example_format exampleBuildInfo_def
          del: transferAll.simps)
qed

lemma example_first_run:
  "copyFilesAsync exampleEnv [exampleOperation] exampleBuildInfoPath exampleWorld =
   (None, exampleWorldAfterFirstRun)"
  by (simp add: copyFilesAsync_def example_descriptors example_config_hash example_inner_first)

lemma example_empty_descriptors:
  "getCopyDescriptorsAsync exampleEnv [exampleEmptyOperation] fs = Inr []"
proof -
  have "getFileSelectionSpecifierPaths exampleEnv exampleEmptyOperation fs = []"
    by (simp add: exampleEnv_def exampleEmptyOperation_def)
  moreover have "destinationFolders exampleEmptyOperation = [''/out'']"
    by (simp add: exampleEmptyOperation_def exampleOperation_def)
  ultimately show ?thesis
    by (simp add: getCopyDescriptorsAsync_def addCopyOperation_def)
qed

lemma example_read_after:
  "tryReadBuildInfoAsync exampleEnv exampleBuildInfoPath exampleWorldAfterFirstRun =
   Some exampleBuildInfo"
  by (simp add: tryReadBuildInfoAsync_def exampleWorldAfterFirstRun_def example_format
        example_reads_back)

lemma example_old_after:
  "oldBuildInfo exampleEnv exampleConfigHash exampleBuildInfoPath exampleWorldAfterFirstRun =
   Some exampleBuildInfo"
  by (simp add: oldBuildInfo_def configChanged_def example_read_after example_build_info_fields)

lemma example_diff_after:
  "getCopyDescriptorsWithWork (oldBuildInfo exampleEnv exampleConfigHash exampleBuildInfoPath exampleWorldAfterFirstRun)
     [(''/src/a.txt'', ''sha256:hello''), (''/src/b.txt'', ''sha256:world'')] exampleDescriptors =
   Inr []"
  by (simp add: example_old_after getCopyDescriptorsWithWork_def example_values
        checkCopyDescriptor_def example_sources Map_get_def upToDate_def
        example_build_info_fields)






lemma example_hash_stale:
  "hashInputFiles exampleEnv (files exampleWorldStale) [''/src/a.txt'', ''/src/b.txt''] =
   Inr [(''/src/a.txt'', ''sha256:hello''), (''/src/b.txt'', ''sha256:world'')]"
  by (simp add: hashInputFiles_def hashInputFile_def exampleWorldStale_def
        exampleWorldAfterFirstRun_def example_digest exampleBuildInfoPath_def)

lemma example_read_stale:
  "tryReadBuildInfoAsync exampleEnv exampleBuildInfoPath exampleWorldStale =
   Some exampleStaleBuildInfo"
  by (simp add: tryReadBuildInfoAsync_def exampleWorldStale_def example_format
        example_reads_back)

lemma example_old_stale:
  "oldBuildInfo exampleEnv exampleConfigHash exampleBuildInfoPath exampleWorldStale =
   Some exampleStaleBuildInfo"
  "afterConfigCheck exampleEnv exampleConfigHash exampleBuildInfoPath exampleWorldStale = exampleWorldStale"
  by (simp_all add: oldBuildInfo_def afterConfigCheck_def configChanged_def example_read_stale
        example_build_info_fields)

lemma example_diff_stale:
  "getCopyDescriptorsWithWork (oldBuildInfo exampleEnv exampleConfigHash exampleBuildInfoPath exampleWorldStale)
     [(''/src/a.txt'', ''sha256:hello''), (''/src/b.txt'', ''sha256:world'')] exampleDescriptors =
   Inr []"
  by (simp add: example_old_stale getCopyDescriptorsWithWork_def example_values
        checkCopyDescriptor_def example_sources Map_get_def upToDate_def
        example_build_info_fields)

lemma example_stale_run:
  "copyFilesAsync exampleEnv [exampleOperation] exampleBuildInfoPath exampleWorldStale =
   (None, writeLine nothingToDoLine exampleWorldStale)"
proof -
  have ne: "exampleDescriptors \<noteq> []" by (simp add: exampleDescriptors_def)
  have "copyFilesInnerAsync exampleEnv exampleDescriptors exampleConfigHash
      exampleBuildInfoPath exampleWorldStale = (None, writeLine nothingToDoLine exampleWorldStale)"
    by (simp add: copyFilesInnerAsync_unfold[OF ne] example_inputs example_hash_stale
          example_diff_stale example_old_stale(2))
  then show ?thesis
    by (simp add: copyFilesAsync_def example_descriptors example_config_hash)
qed

lemma example_nested_descriptors:
  "getCopyDescriptorsAsync exampleEnv [exampleNestedOperation] fs =
   Inr [(''/D/sub/a.txt'',
         \<lparr> sourcePath = ''/root/sub/a.txt'', destinationPath = ''/D/sub/a.txt'',
           hardlink = False \<rparr>)]"
  by (simp add: getCopyDescriptorsAsync_def addCopyOperation_def addCopyDescriptor_def
        resolvedDestinationPath_def exampleEnv_def exampleNestedOperation_def truthy_def
        Map_get_def Let_def posix_resolve_def posix_relative_def segments_def joinSegments_def)

lemma example_flat_descriptors:
  "getCopyDescriptorsAsync exampleEnv [exampleFlatOperation] fs =
   Inr [(''/D/a.txt'',
         \<lparr> sourcePath = ''/root/sub/a.txt'', destinationPath = ''/D/a.txt'',
           hardlink = False \<rparr>)]"
  by (simp add: getCopyDescriptorsAsync_def addCopyOperation_def addCopyDescriptor_def
        resolvedDestinationPath_def exampleEnv_def exampleNestedOperation_def
        exampleFlatOperation_def truthy_def
        Map_get_def Let_def posix_resolve_def posix_basename_def segments_def joinSegments_def)

lemma example_omitted_resolved:
  "resolvedDestinationPath exampleEnv exampleOmittedOperation D s =
   resolvedDestinationPath exampleEnv exampleOperation D s"
  by (simp add: resolvedDestinationPath_def exampleOmittedOperation_def)

lemma example_omitted_fields:
  "copy_operation.hardlink exampleOmittedOperation = None"
  "getFileSelectionSpecifierPaths exampleEnv exampleOmittedOperation fs =
     getFileSelectionSpecifierPaths exampleEnv exampleOperation fs"
  by (simp_all add: exampleOmittedOperation_def exampleEnv_def)

lemma example_add_first:
  "addCopyDescriptor exampleEnv exampleOperation ''/out'' ''/src/a.txt'' [] =
   Inr [(''/out/a.txt'', exampleDescriptorA)]"
  by (simp add: addCopyDescriptor_def example_resolved Map_get_def example_fields truthy_def
        Let_def exampleDescriptorA_def)

lemma example_reads_first:
  "\<forall>V. hashInputFiles exampleEnv (files exampleWorld) (allInputFiles exampleDescriptors) = Inr V \<longrightarrow>
     readsBack exampleEnv
       \<lparr> configHash = computeConfigHash exampleEnv [exampleOperation], inputFileVersions = V \<rparr>"
proof (intro allI impI)
  fix V
  assume "hashInputFiles exampleEnv (files exampleWorld) (allInputFiles exampleDescriptors) = Inr V"
  then have "V = [(''/src/a.txt'', ''sha256:hello''), (''/src/b.txt'', ''sha256:world'')]"
    by (simp add: example_inputs example_hash_first)
  then have "\<lparr> configHash = computeConfigHash exampleEnv [exampleOperation],
      inputFileVersions = V \<rparr> = exampleBuildInfo"
    by (simp add: exampleBuildInfo_def example_config_hash)
  then show "readsBack exampleEnv
       \<lparr> configHash = computeConfigHash exampleEnv [exampleOperation], inputFileVersions = V \<rparr>"
    by (simp add: readsBack_def example_format example_reads_back)
qed

lemma example_digits:
  "String_of_nat 0 = ''0''" "String_of_nat 1 = ''1''" "String_of_nat 2 = ''2''"
  by code_simp+

































section \<open>The claims of the specification\<close>

subsection \<open>C1: which descriptors are transferred\<close>

text \<open>
  C1. Once every source has been hashed and the descriptors have been checked, a
  descriptor is left out of the transfer set exactly when a build info was read whose
  configHash equals the fingerprint of this run and whose entry for the descriptor's
  source path equals the digest just computed from the content of that source. With no
  build info, another configHash, no entry or another digest, the descriptor is in the
  transfer set.
\<close>

theorem excluded_iff_prior_hash_matches:
  assumes hashed: "hashInputFiles e (files w) (allInputFiles ds) = Inr V"
    and diffed: "getCopyDescriptorsWithWork (oldBuildInfo e cfg p w) V ds = Inr work"
    and d: "d \<in> set (Map_values ds)"
  shows "d \<notin> set work \<longleftrightarrow>
     (\<exists>prior content.
        tryReadBuildInfoAsync e p w = Some prior \<and> configHash prior = cfg \<and>
        files w (copy_descriptor.sourcePath d) = Some content \<and>
        Map_get (inputFileVersions prior) (copy_descriptor.sourcePath d) =
          Some (sha256_base64 e content))"
proof -
  let ?src = "copy_descriptor.sourcePath d"
  have "?src \<in> set (allInputFiles ds)" using d by (simp add: set_allInputFiles)
  then obtain content where c: "files w ?src = Some content"
    and v: "Map_get V ?src = Some (sha256_base64 e content)"
    using hashInputFiles_Inr(1)[OF hashed] by blast
  have "d \<notin> set work \<longleftrightarrow> \<not> needsTransfer (oldBuildInfo e cfg p w) V d"
    using getCopyDescriptorsWithWork_Inr(1)[OF diffed] d by simp
  also have "\<dots> \<longleftrightarrow> upToDate (oldBuildInfo e cfg p w) ?src (sha256_base64 e content)"
    using v by (simp add: needsTransfer_def)
  also have "\<dots> \<longleftrightarrow> (\<exists>prior. oldBuildInfo e cfg p w = Some prior \<and>
      Map_get (inputFileVersions prior) ?src = Some (sha256_base64 e content))"
    by (cases "oldBuildInfo e cfg p w") (simp_all add: upToDate_def)
  also have "\<dots> \<longleftrightarrow> (\<exists>prior content.
        tryReadBuildInfoAsync e p w = Some prior \<and> configHash prior = cfg \<and>
        files w ?src = Some content \<and>
        Map_get (inputFileVersions prior) ?src = Some (sha256_base64 e content))"
    using c by (auto simp: oldBuildInfo_Some_iff)
  finally show ?thesis .
qed

theorem excluded_iff_prior_hash_matches_witness:
  "exampleDescriptorB \<notin> set [exampleDescriptorA] \<and>
   (\<exists>prior content.
      tryReadBuildInfoAsync exampleEnv exampleBuildInfoPath exampleWorldEdited = Some prior \<and>
      configHash prior = exampleConfigHash \<and>
      files exampleWorldEdited (copy_descriptor.sourcePath exampleDescriptorB) = Some content \<and>
      Map_get (inputFileVersions prior) (copy_descriptor.sourcePath exampleDescriptorB) =
        Some (sha256_base64 exampleEnv content)) \<and>
   exampleDescriptorA \<in> set [exampleDescriptorA] \<and>
   \<not> (\<exists>prior content.
      tryReadBuildInfoAsync exampleEnv exampleBuildInfoPath exampleWorldEdited = Some prior \<and>
      configHash prior = exampleConfigHash \<and>
      files exampleWorldEdited (copy_descriptor.sourcePath exampleDescriptorA) = Some content \<and>
      Map_get (inputFileVersions prior) (copy_descriptor.sourcePath exampleDescriptorA) =
        Some (sha256_base64 exampleEnv content))"
proof -
  have hashed: "hashInputFiles exampleEnv (files exampleWorldEdited) (allInputFiles exampleDescriptors) =
      Inr [(''/src/a.txt'', ''sha256:HELLO''), (''/src/b.txt'', ''sha256:world'')]"
    by (simp add: example_inputs example_hash_edited)
  have a: "exampleDescriptorA \<in> set (Map_values exampleDescriptors)"
    and b: "exampleDescriptorB \<in> set (Map_values exampleDescriptors)"
    by (simp_all add: example_values)
  have differ: "exampleDescriptorB \<noteq> exampleDescriptorA"
    by (simp add: exampleDescriptorA_def exampleDescriptorB_def)
  note forB = excluded_iff_prior_hash_matches[OF hashed example_diff_edited b]
  note forA = excluded_iff_prior_hash_matches[OF hashed example_diff_edited a]
  show ?thesis using forA forB differ by simp
qed

subsection \<open>C2: re-declared and conflicting destinations\<close>



subsection \<open>C3: a second run\<close>




subsection \<open>C4: flatten\<close>

text \<open>
  C4. When resolution succeeds, every operation, every destination folder D of it and
  every source file it matched have their descriptor in the result, under the
  destination path the code computes: D resolved with the basename of the source when
  flatten is true, and D resolved with the path of the source relative to the
  operation's source folder when flatten is false or left out. With the POSIX paths of
  the example, \<^verbatim>\<open>/root/sub/a.txt\<close> lands at \<^verbatim>\<open>/D/a.txt\<close> and at \<^verbatim>\<open>/D/sub/a.txt\<close>.
\<close>

theorem flatten_decides_destination:
  assumes resolved: "getCopyDescriptorsAsync e ops fs = Inr m"
    and c: "c \<in> set ops" and D: "D \<in> set (destinationFolders c)"
    and s: "s \<in> set (getFileSelectionSpecifierPaths e c fs)"
  shows "(flatten c = Some True \<longrightarrow>
        resolvedDestinationPath e c D s = path_resolve e D (path_basename e s) \<and>
        Map_get m (path_resolve e D (path_basename e s)) =
          Some \<lparr> sourcePath = s, destinationPath = path_resolve e D (path_basename e s),
                 hardlink = truthy (copy_operation.hardlink c) \<rparr>) \<and>
     (flatten c \<noteq> Some True \<longrightarrow>
        resolvedDestinationPath e c D s =
          path_resolve e D (path_relative e (copy_operation.sourcePath c) s) \<and>
        Map_get m (path_resolve e D (path_relative e (copy_operation.sourcePath c) s)) =
          Some \<lparr> sourcePath = s,
                 destinationPath = path_resolve e D (path_relative e (copy_operation.sourcePath c) s),
                 hardlink = truthy (copy_operation.hardlink c) \<rparr>)"
proof (cases "flatten c = Some True")
  case True
  then have "resolvedDestinationPath e c D s = path_resolve e D (path_basename e s)"
    by (simp add: resolvedDestinationPath_def truthy_def)
  then show ?thesis using getCopyDescriptorsAsync_entry[OF resolved c D s] True by simp
next
  case False
  then have "resolvedDestinationPath e c D s =
      path_resolve e D (path_relative e (copy_operation.sourcePath c) s)"
    by (simp add: resolvedDestinationPath_def truthy_def)
  then show ?thesis using getCopyDescriptorsAsync_entry[OF resolved c D s] False by simp
qed

theorem flatten_decides_destination_witness:
  "resolvedDestinationPath exampleEnv exampleFlatOperation ''/D'' ''/root/sub/a.txt'' = ''/D/a.txt'' \<and>
   Map_get [(''/D/a.txt'',
         \<lparr> sourcePath = ''/root/sub/a.txt'', destinationPath = ''/D/a.txt'',
           hardlink = False \<rparr>)] ''/D/a.txt'' =
     Some \<lparr> sourcePath = ''/root/sub/a.txt'', destinationPath = ''/D/a.txt'', hardlink = False \<rparr> \<and>
   resolvedDestinationPath exampleEnv exampleNestedOperation ''/D'' ''/root/sub/a.txt'' =
     ''/D/sub/a.txt'' \<and>
   Map_get [(''/D/sub/a.txt'',
         \<lparr> sourcePath = ''/root/sub/a.txt'', destinationPath = ''/D/sub/a.txt'',
           hardlink = False \<rparr>)] ''/D/sub/a.txt'' =
     Some \<lparr> sourcePath = ''/root/sub/a.txt'', destinationPath = ''/D/sub/a.txt'',
            hardlink = False \<rparr>"
proof -
  have paths: "path_resolve exampleEnv ''/D'' (path_basename exampleEnv ''/root/sub/a.txt'') =
      ''/D/a.txt''"
    "path_resolve exampleEnv ''/D'' (path_relative exampleEnv ''/root'' ''/root/sub/a.txt'') =
      ''/D/sub/a.txt''"
    by (simp_all add: exampleEnv_def posix_resolve_def posix_basename_def posix_relative_def
          segments_def joinSegments_def)
  have flat: "exampleFlatOperation \<in> set [exampleFlatOperation]"
    "''/D'' \<in> set (destinationFolders exampleFlatOperation)"
    "''/root/sub/a.txt'' \<in> set (getFileSelectionSpecifierPaths exampleEnv exampleFlatOperation Map.empty)"
    "flatten exampleFlatOperation = Some True"
    "copy_operation.hardlink exampleFlatOperation = None"
    by (simp_all add: exampleFlatOperation_def exampleNestedOperation_def exampleEnv_def)
  have nested: "exampleNestedOperation \<in> set [exampleNestedOperation]"
    "''/D'' \<in> set (destinationFolders exampleNestedOperation)"
    "''/root/sub/a.txt'' \<in> set (getFileSelectionSpecifierPaths exampleEnv exampleNestedOperation Map.empty)"
    "flatten exampleNestedOperation \<noteq> Some True"
    "copy_operation.hardlink exampleNestedOperation = None"
    "copy_operation.sourcePath exampleNestedOperation = ''/root''"
    by (simp_all add: exampleNestedOperation_def exampleEnv_def)
  from flatten_decides_destination[OF example_flat_descriptors flat(1-3)] flat(4,5) paths(1)
  have "resolvedDestinationPath exampleEnv exampleFlatOperation ''/D'' ''/root/sub/a.txt'' = ''/D/a.txt'' \<and>
   Map_get [(''/D/a.txt'',
         \<lparr> sourcePath = ''/root/sub/a.txt'', destinationPath = ''/D/a.txt'',
           hardlink = False \<rparr>)] ''/D/a.txt'' =
     Some \<lparr> sourcePath = ''/root/sub/a.txt'', destinationPath = ''/D/a.txt'', hardlink = False \<rparr>"
    by (simp add: truthy_def)
  moreover
  from flatten_decides_destination[OF example_nested_descriptors nested(1-3)] nested(4-6) paths(2)
  have "resolvedDestinationPath exampleEnv exampleNestedOperation ''/D'' ''/root/sub/a.txt'' =
     ''/D/sub/a.txt'' \<and>
   Map_get [(''/D/sub/a.txt'',
         \<lparr> sourcePath = ''/root/sub/a.txt'', destinationPath = ''/D/sub/a.txt'',
           hardlink = False \<rparr>)] ''/D/sub/a.txt'' =
     Some \<lparr> sourcePath = ''/root/sub/a.txt'', destinationPath = ''/D/sub/a.txt'',
            hardlink = False \<rparr>"
    by (simp add: truthy_def)
  ultimately show ?thesis by blast
qed

subsection \<open>C5: the configuration fingerprint\<close>

text \<open>
  C5. The fingerprint is the digest of the serializations of the operations, concatenated
  in the order of the list, and of nothing else. After a successful run with descriptors
  the build info read from the build-info path carries the fingerprint of that run's
  operation list, so a later run with the same list, finding that file, computes the
  same fingerprint, does not report a changed configuration and keeps the build info as
  its old state. The build info lives in a file, so the statement asks that the record
  the run writes is read back as written.
\<close>

theorem unchanged_configuration_keeps_build_info:
  assumes run: "copyFilesAsync e ops p w = (None, w1)"
    and resolved: "getCopyDescriptorsAsync e ops (files w) = Inr ds"
    and ne: "ds \<noteq> []"
    and reads: "\<forall>V. hashInputFiles e (files w) (allInputFiles ds) = Inr V \<longrightarrow>
        readsBack e \<lparr> configHash = computeConfigHash e ops, inputFileVersions = V \<rparr>"
    and same: "files w2 p = files w1 p"
  shows "computeConfigHash e ops = sha256_base64 e (concat (map (JSON_stringify e) ops)) \<and>
     (\<exists>b. tryReadBuildInfoAsync e p w1 = Some b \<and> configHash b = computeConfigHash e ops) \<and>
     \<not> configChanged e (computeConfigHash e ops) p w2 \<and>
     oldBuildInfo e (computeConfigHash e ops) p w2 = tryReadBuildInfoAsync e p w1 \<and>
     afterConfigCheck e (computeConfigHash e ops) p w2 = w2"
proof -
  let ?cfg = "computeConfigHash e ops"
  have inner: "copyFilesInnerAsync e ds ?cfg p w = (None, w1)"
    using run resolved by (simp add: copyFilesAsync_def)
  obtain b where b: "tryReadBuildInfoAsync e p w1 = Some b" "configHash b = ?cfg"
    using successful_run_build_info[OF inner ne reads] by blast
  have b2: "tryReadBuildInfoAsync e p w2 = Some b"
    using tryReadBuildInfoAsync_cong[OF same] b(1) by simp
  show ?thesis
    using b matching_build_info_is_kept[OF b2 b(2)]
    by (simp add: computeConfigHash_def)
qed

theorem unchanged_configuration_keeps_build_info_witness:
  "(\<exists>b. tryReadBuildInfoAsync exampleEnv exampleBuildInfoPath exampleWorldAfterFirstRun = Some b \<and>
        configHash b = computeConfigHash exampleEnv [exampleOperation]) \<and>
   \<not> configChanged exampleEnv (computeConfigHash exampleEnv [exampleOperation])
       exampleBuildInfoPath exampleWorldEdited \<and>
   oldBuildInfo exampleEnv (computeConfigHash exampleEnv [exampleOperation]) exampleBuildInfoPath
       exampleWorldEdited =
     tryReadBuildInfoAsync exampleEnv exampleBuildInfoPath exampleWorldAfterFirstRun \<and>
   afterConfigCheck exampleEnv (computeConfigHash exampleEnv [exampleOperation])
       exampleBuildInfoPath exampleWorldEdited = exampleWorldEdited"
proof -
  have ne: "exampleDescriptors \<noteq> []" by (simp add: exampleDescriptors_def)
  have same: "files exampleWorldEdited exampleBuildInfoPath =
      files exampleWorldAfterFirstRun exampleBuildInfoPath"
    by (simp add: exampleWorldEdited_def exampleBuildInfoPath_def)
  from unchanged_configuration_keeps_build_info
    [OF example_first_run example_descriptors ne example_reads_first same]
  show ?thesis by blast
qed

subsection \<open>C6: failed runs\<close>




subsection \<open>C7: when the build info is written\<close>

text \<open>
  C7, as the spec states it: every successful completion, also one whose transfer set is
  empty, writes the new build info with the current fingerprint and the digests of
  exactly this run's sources. The code returns before the write when the transfer set is
  empty (line 231) and when there are no descriptors (line 180). In the example the
  stored build info has an entry for a third source; the run finds the two current
  sources up to date, succeeds, and leaves the build-info file with its three entries,
  which is not the file the new build info would be. A first run whose operation matches
  nothing succeeds and leaves no build-info file at all.
\<close>

theorem no_op_completion_writes_no_build_info:
  "copyFilesAsync exampleEnv [exampleOperation] exampleBuildInfoPath exampleWorldStale =
     (None, writeLine nothingToDoLine exampleWorldStale) \<and>
   hashInputFiles exampleEnv (files exampleWorldStale) (allInputFiles exampleDescriptors) =
     Inr [(''/src/a.txt'', ''sha256:hello''), (''/src/b.txt'', ''sha256:world'')] \<and>
   tryReadBuildInfoAsync exampleEnv exampleBuildInfoPath
       (writeLine nothingToDoLine exampleWorldStale) =
     Some \<lparr> configHash = computeConfigHash exampleEnv [exampleOperation],
            inputFileVersions =
              [(''/src/a.txt'', ''sha256:hello''), (''/src/b.txt'', ''sha256:world''),
               (''/src/c.txt'', ''sha256:gone'')] \<rparr> \<and>
   files (writeLine nothingToDoLine exampleWorldStale) exampleBuildInfoPath \<noteq>
     Some (serializeBuildInfo exampleEnv
            \<lparr> configHash = computeConfigHash exampleEnv [exampleOperation],
              inputFileVersions =
                [(''/src/a.txt'', ''sha256:hello''), (''/src/b.txt'', ''sha256:world'')] \<rparr>) \<and>
   copyFilesAsync exampleEnv [exampleEmptyOperation] exampleBuildInfoPath exampleWorld =
     (None, exampleWorld) \<and>
   files exampleWorld exampleBuildInfoPath = None"
proof -
  have stored: "files (writeLine nothingToDoLine exampleWorldStale) exampleBuildInfoPath =
      Some (exampleSerialize exampleStaleBuildInfo)"
    by (simp add: files_writeLine exampleWorldStale_def)
  have read: "tryReadBuildInfoAsync exampleEnv exampleBuildInfoPath
       (writeLine nothingToDoLine exampleWorldStale) =
     Some \<lparr> configHash = computeConfigHash exampleEnv [exampleOperation],
            inputFileVersions =
              [(''/src/a.txt'', ''sha256:hello''), (''/src/b.txt'', ''sha256:world''),
               (''/src/c.txt'', ''sha256:gone'')] \<rparr>"
  proof -
    have "tryReadBuildInfoAsync exampleEnv exampleBuildInfoPath
        (writeLine nothingToDoLine exampleWorldStale) = Some exampleStaleBuildInfo"
      using stored by (simp add: tryReadBuildInfoAsync_def example_format example_reads_back)
    then show ?thesis by (simp add: exampleStaleBuildInfo_def example_config_hash)
  qed
  have new: "\<lparr> configHash = computeConfigHash exampleEnv [exampleOperation],
      inputFileVersions =
        [(''/src/a.txt'', ''sha256:hello''), (''/src/b.txt'', ''sha256:world'')] \<rparr> =
      exampleBuildInfo"
    by (simp add: exampleBuildInfo_def example_config_hash)
  have "exampleSerialize exampleStaleBuildInfo \<noteq> exampleSerialize exampleBuildInfo"
  proof
    assume "exampleSerialize exampleStaleBuildInfo = exampleSerialize exampleBuildInfo"
    then have "exampleParse (exampleSerialize exampleStaleBuildInfo) =
        exampleParse (exampleSerialize exampleBuildInfo)"
      by simp
    then have "exampleStaleBuildInfo = exampleBuildInfo"
      by (simp add: example_reads_back)
    then have "inputFileVersions exampleStaleBuildInfo = inputFileVersions exampleBuildInfo"
      by simp
    then show False by (simp add: example_build_info_fields)
  qed
  then have differs: "files (writeLine nothingToDoLine exampleWorldStale) exampleBuildInfoPath \<noteq>
     Some (serializeBuildInfo exampleEnv
            \<lparr> configHash = computeConfigHash exampleEnv [exampleOperation],
              inputFileVersions =
                [(''/src/a.txt'', ''sha256:hello''), (''/src/b.txt'', ''sha256:world'')] \<rparr>)"
    using stored by (simp add: new example_format)
  have empty: "copyFilesAsync exampleEnv [exampleEmptyOperation] exampleBuildInfoPath exampleWorld =
     (None, exampleWorld)"
    by (simp add: copyFilesAsync_def example_empty_descriptors copyFilesInnerAsync_def)
  have none: "files exampleWorld exampleBuildInfoPath = None"
    by (simp add: exampleWorld_def exampleBuildInfoPath_def)
  have hashed: "hashInputFiles exampleEnv (files exampleWorldStale) (allInputFiles exampleDescriptors) =
     Inr [(''/src/a.txt'', ''sha256:hello''), (''/src/b.txt'', ''sha256:world'')]"
    by (simp add: example_inputs example_hash_stale)
  show ?thesis
    using example_stale_run hashed read differs empty none by blast
qed

text \<open>
  C7, amended: a successful run whose transfer set is not empty writes, to the file at the
  build-info path, the record of the current fingerprint and of the digests just
  computed, which has one entry for each distinct source of this run, in order, each the
  digest of that source's content; whatever the file held before is replaced, and the
  record is what the next read finds when the format reads it back. A successful run
  whose transfer set is empty changes no file, and a run without descriptors leaves the
  whole state as it was.
\<close>

theorem build_info_written_after_transfers:
  assumes run: "copyFilesAsync e ops p w = (None, w')"
    and resolved: "getCopyDescriptorsAsync e ops (files w) = Inr ds"
  shows "(ds = [] \<longrightarrow> w' = w) \<and>
     (ds \<noteq> [] \<longrightarrow>
        (\<exists>V work.
           hashInputFiles e (files w) (allInputFiles ds) = Inr V \<and>
           getCopyDescriptorsWithWork (oldBuildInfo e (computeConfigHash e ops) p w) V ds =
             Inr work \<and>
           map fst V = allInputFiles ds \<and>
           (\<forall>(s, h)\<in>set V. \<exists>c. files w s = Some c \<and> h = sha256_base64 e c) \<and>
           (if work = [] then files w' = files w
            else files w' p =
                   Some (serializeBuildInfo e
                          \<lparr> configHash = computeConfigHash e ops, inputFileVersions = V \<rparr>) \<and>
                 (readsBack e \<lparr> configHash = computeConfigHash e ops, inputFileVersions = V \<rparr> \<longrightarrow>
                    tryReadBuildInfoAsync e p w' =
                      Some \<lparr> configHash = computeConfigHash e ops, inputFileVersions = V \<rparr>))))"
proof (rule conjI; rule impI)
  let ?cfg = "computeConfigHash e ops"
  have inner: "copyFilesInnerAsync e ds ?cfg p w = (None, w')"
    using run resolved by (simp add: copyFilesAsync_def)
  {
    assume "ds = []"
    then show "w' = w" using inner by (simp add: copyFilesInnerAsync_def)
  }
  assume ne: "ds \<noteq> []"
  have described: "map fst V = allInputFiles ds \<and>
      (\<forall>(s, h)\<in>set V. \<exists>c. files w s = Some c \<and> h = sha256_base64 e c)"
    if "hashInputFiles e (files w) (allInputFiles ds) = Inr V" for V
    using hashInputFiles_keys[OF that distinct_allInputFiles]
      hashInputFiles_entries[OF that distinct_allInputFiles] by simp
  from inner ne show "\<exists>V work.
           hashInputFiles e (files w) (allInputFiles ds) = Inr V \<and>
           getCopyDescriptorsWithWork (oldBuildInfo e ?cfg p w) V ds = Inr work \<and>
           map fst V = allInputFiles ds \<and>
           (\<forall>(s, h)\<in>set V. \<exists>c. files w s = Some c \<and> h = sha256_base64 e c) \<and>
           (if work = [] then files w' = files w
            else files w' p =
                   Some (serializeBuildInfo e \<lparr> configHash = ?cfg, inputFileVersions = V \<rparr>) \<and>
                 (readsBack e \<lparr> configHash = ?cfg, inputFileVersions = V \<rparr> \<longrightarrow>
                    tryReadBuildInfoAsync e p w' =
                      Some \<lparr> configHash = ?cfg, inputFileVersions = V \<rparr>))"
  proof (cases rule: copyFilesInnerAsync_cases)
    case (upToDate V)
    have "files w' = files w"
      using upToDate(4) by (simp add: files_writeLine)
    then show ?thesis using upToDate(1,2) described[OF upToDate(1)] by auto
  next
    case (transferred V work st)
    have written: "files w' p =
        Some (serializeBuildInfo e \<lparr> configHash = ?cfg, inputFileVersions = V \<rparr>)"
      using transferred(6) by (simp add: files_writeBuildInfoAsync)
    have "readsBack e \<lparr> configHash = ?cfg, inputFileVersions = V \<rparr> \<longrightarrow>
        tryReadBuildInfoAsync e p w' = Some \<lparr> configHash = ?cfg, inputFileVersions = V \<rparr>"
      using transferred(6) by (simp add: tryReadBuildInfoAsync_written)
    then show ?thesis
      using written transferred(1,2,3) described[OF transferred(1)] by auto
  qed simp_all
qed

theorem build_info_written_after_transfers_witness:
  "(\<exists>V work.
      hashInputFiles exampleEnv (files exampleWorld) (allInputFiles exampleDescriptors) = Inr V \<and>
      getCopyDescriptorsWithWork
        (oldBuildInfo exampleEnv (computeConfigHash exampleEnv [exampleOperation])
           exampleBuildInfoPath exampleWorld) V exampleDescriptors = Inr work \<and>
      map fst V = allInputFiles exampleDescriptors \<and>
      (if work = [] then files exampleWorldAfterFirstRun = files exampleWorld
       else files exampleWorldAfterFirstRun exampleBuildInfoPath =
              Some (serializeBuildInfo exampleEnv
                     \<lparr> configHash = computeConfigHash exampleEnv [exampleOperation],
                       inputFileVersions = V \<rparr>))) \<and>
   tryReadBuildInfoAsync exampleEnv exampleBuildInfoPath exampleWorldAfterFirstRun =
     Some \<lparr> configHash = exampleConfigHash,
            inputFileVersions =
              [(''/src/a.txt'', ''sha256:hello''), (''/src/b.txt'', ''sha256:world'')] \<rparr>"
proof -
  have ne: "exampleDescriptors \<noteq> []" by (simp add: exampleDescriptors_def)
  have read: "tryReadBuildInfoAsync exampleEnv exampleBuildInfoPath exampleWorldAfterFirstRun =
     Some \<lparr> configHash = exampleConfigHash,
            inputFileVersions =
              [(''/src/a.txt'', ''sha256:hello''), (''/src/b.txt'', ''sha256:world'')] \<rparr>"
    using example_read_after by (simp add: exampleBuildInfo_def)
  from build_info_written_after_transfers[OF example_first_run example_descriptors] ne
  obtain V work where
    V: "hashInputFiles exampleEnv (files exampleWorld) (allInputFiles exampleDescriptors) = Inr V"
      "getCopyDescriptorsWithWork
        (oldBuildInfo exampleEnv (computeConfigHash exampleEnv [exampleOperation])
           exampleBuildInfoPath exampleWorld) V exampleDescriptors = Inr work"
      "map fst V = allInputFiles exampleDescriptors"
    and written: "if work = [] then files exampleWorldAfterFirstRun = files exampleWorld
       else files exampleWorldAfterFirstRun exampleBuildInfoPath =
              Some (serializeBuildInfo exampleEnv
                     \<lparr> configHash = computeConfigHash exampleEnv [exampleOperation],
                       inputFileVersions = V \<rparr>) \<and>
            (readsBack exampleEnv
               \<lparr> configHash = computeConfigHash exampleEnv [exampleOperation],
                 inputFileVersions = V \<rparr> \<longrightarrow>
             tryReadBuildInfoAsync exampleEnv exampleBuildInfoPath exampleWorldAfterFirstRun =
               Some \<lparr> configHash = computeConfigHash exampleEnv [exampleOperation],
                      inputFileVersions = V \<rparr>)"
    by blast
  have "if work = [] then files exampleWorldAfterFirstRun = files exampleWorld
       else files exampleWorldAfterFirstRun exampleBuildInfoPath =
              Some (serializeBuildInfo exampleEnv
                     \<lparr> configHash = computeConfigHash exampleEnv [exampleOperation],
                       inputFileVersions = V \<rparr>)"
    using written by (cases "work = []") simp_all
  then show ?thesis using V read by blast
qed

subsection \<open>C8: the summary line\<close>

text \<open>
  C8. When every transfer of a non-empty transfer set has succeeded, the copied-file
  counter equals the number of descriptors of the set whose hardlink flag is false and
  the linked-file counter the number whose flag is true. The run succeeds and the last
  line it prints is "Copied n file(s) and linked m file(s)", where n and m are these two
  numbers written in decimal and "file" stands for exactly one; for two copies and no
  link it reads "Copied 2 files and linked 0 files".
\<close>

theorem summary_reports_copied_and_linked:
  assumes hashed: "hashInputFiles e (files w) (allInputFiles ds) = Inr V"
    and diffed: "getCopyDescriptorsWithWork (oldBuildInfo e cfg p w) V ds = Inr work"
    and work: "work \<noteq> []"
    and moved: "transferAll e work
        \<lparr> copiedFileCount = 0, linkedFileCount = 0, current = afterConfigCheck e cfg p w \<rparr> =
        (None, st)"
    and n: "n = length (filter (\<lambda>d. \<not> copy_descriptor.hardlink d) work)"
    and m: "m = length (filter (\<lambda>d. copy_descriptor.hardlink d) work)"
  shows "copiedFileCount st = n \<and> linkedFileCount st = m \<and>
     (\<exists>w'. copyFilesInnerAsync e ds cfg p w = (None, w') \<and>
        last (terminal w') =
          Line (''Copied '' @ String_of_nat n @ '' file'' @ (if n = 1 then [] else ''s'') @
                '' and linked '' @ String_of_nat m @ '' file'' @ (if m = 1 then [] else ''s''))) \<and>
     decimalValue (String_of_nat n) = n \<and> set (String_of_nat n) \<subseteq> set ''0123456789'' \<and>
     (n \<noteq> 0 \<longrightarrow> hd (String_of_nat n) \<noteq> CHR ''0'') \<and>
     decimalValue (String_of_nat m) = m \<and> set (String_of_nat m) \<subseteq> set ''0123456789'' \<and>
     (m \<noteq> 0 \<longrightarrow> hd (String_of_nat m) \<noteq> CHR ''0'') \<and>
     summaryLine 2 0 = ''Copied 2 files and linked 0 files'' \<and>
     summaryLine 1 1 = ''Copied 1 file and linked 1 file''"
proof -
  have ne: "ds \<noteq> []" using diffed work work_Nil_if_no_descriptors by blast
  have counts: "copiedFileCount st = n" "linkedFileCount st = m"
    using transferAll_counts[OF moved] n m by simp_all
  have run: "copyFilesInnerAsync e ds cfg p w =
      (None, writeBuildInfoAsync e \<lparr> configHash = cfg, inputFileVersions = V \<rparr> p
         (writeLine (summaryLine n m) (current st)))"
    using hashed diffed work moved counts by (simp add: copyFilesInnerAsync_unfold[OF ne])
  have "last (terminal (writeBuildInfoAsync e \<lparr> configHash = cfg, inputFileVersions = V \<rparr> p
         (writeLine (summaryLine n m) (current st)))) = Line (summaryLine n m)"
    by (simp add: terminal_writeBuildInfoAsync terminal_writeLine)
  then have line: "\<exists>w'. copyFilesInnerAsync e ds cfg p w = (None, w') \<and>
        last (terminal w') =
          Line (''Copied '' @ String_of_nat n @ '' file'' @ (if n = 1 then [] else ''s'') @
                '' and linked '' @ String_of_nat m @ '' file'' @ (if m = 1 then [] else ''s''))"
    using run by (simp add: summaryLine_def)
  have two: "summaryLine 2 0 = ''Copied 2 files and linked 0 files''"
    by code_simp
  have one: "summaryLine 1 1 = ''Copied 1 file and linked 1 file''"
    by code_simp
  show ?thesis
    using counts line String_of_nat_decimal[of n] String_of_nat_decimal[of m] two one
    by blast
qed

theorem summary_reports_copied_and_linked_witness:
  "(\<exists>w'. copyFilesInnerAsync exampleEnv exampleDescriptors exampleConfigHash exampleBuildInfoPath
            exampleWorld = (None, w') \<and>
      last (terminal w') = Line ''Copied 2 files and linked 0 files'') \<and>
   decimalValue (String_of_nat 2) = 2 \<and> hd (String_of_nat 2) \<noteq> CHR ''0''"
proof -
  have hashed: "hashInputFiles exampleEnv (files exampleWorld) (allInputFiles exampleDescriptors) =
      Inr [(''/src/a.txt'', ''sha256:hello''), (''/src/b.txt'', ''sha256:world'')]"
    by (simp add: example_inputs example_hash_first)
  have diffed: "getCopyDescriptorsWithWork
      (oldBuildInfo exampleEnv exampleConfigHash exampleBuildInfoPath exampleWorld)
      [(''/src/a.txt'', ''sha256:hello''), (''/src/b.txt'', ''sha256:world'')] exampleDescriptors =
      Inr [exampleDescriptorA, exampleDescriptorB]"
    by (simp add: example_old_first example_diff_first)
  have work: "[exampleDescriptorA, exampleDescriptorB] \<noteq> []" by simp
  have moved: "transferAll exampleEnv [exampleDescriptorA, exampleDescriptorB]
      \<lparr> copiedFileCount = 0, linkedFileCount = 0,
        current = afterConfigCheck exampleEnv exampleConfigHash exampleBuildInfoPath exampleWorld \<rparr> =
      (None,
       \<lparr> copiedFileCount = 2, linkedFileCount = 0,
         current =
           \<lparr> files = [''/src/a.txt'' \<mapsto> ''hello'', ''/src/b.txt'' \<mapsto> ''world'',
                      ''/out/a.txt'' \<mapsto> ''hello'', ''/out/b.txt'' \<mapsto> ''world''],
             terminal =
               [VerboseLine (copiedLine ''/src/a.txt'' ''/out/a.txt''),
                VerboseLine (copiedLine ''/src/b.txt'' ''/out/b.txt'')] \<rparr> \<rparr>)"
    by (simp only: example_old_first example_transfer_first)
  have n: "(2::nat) = length (filter (\<lambda>d. \<not> copy_descriptor.hardlink d)
      [exampleDescriptorA, exampleDescriptorB])"
    and m: "(0::nat) = length (filter (\<lambda>d. copy_descriptor.hardlink d)
      [exampleDescriptorA, exampleDescriptorB])"
    by (simp_all add: example_sources)
  show ?thesis
    using summary_reports_copied_and_linked[OF hashed diffed work moved n m]
    by (simp add: example_digits)
qed

subsection \<open>C9: no descriptors\<close>

text \<open>
  C9. With no descriptors the run returns at once and leaves the state as it found it,
  whatever the files and the stored build info are: nothing is printed and no build
  info is written, also when none exists yet. With descriptors and an empty transfer
  set the run prints the line "All requested file copy operations are up to date.
  Nothing to do." and changes nothing else.
\<close>

theorem no_descriptors_returns_at_once:
  "copyFilesInnerAsync e [] cfg p w = (None, w) \<and>
   (getCopyDescriptorsAsync e ops (files w) = Inr [] \<longrightarrow>
      copyFilesAsync e ops p w = (None, w)) \<and>
   (ds \<noteq> [] \<and> hashInputFiles e (files w) (allInputFiles ds) = Inr V \<and>
    getCopyDescriptorsWithWork (oldBuildInfo e cfg p w) V ds = Inr [] \<longrightarrow>
      copyFilesInnerAsync e ds cfg p w = (None, writeLine nothingToDoLine w))"
proof (intro conjI impI)
  show inner: "copyFilesInnerAsync e [] cfg p w = (None, w)"
    by (simp add: copyFilesInnerAsync_def)
  show "copyFilesAsync e ops p w = (None, w)"
    if "getCopyDescriptorsAsync e ops (files w) = Inr []"
    using that by (simp add: copyFilesAsync_def copyFilesInnerAsync_def)
  show "copyFilesInnerAsync e ds cfg p w = (None, writeLine nothingToDoLine w)"
    if a: "ds \<noteq> [] \<and> hashInputFiles e (files w) (allInputFiles ds) = Inr V \<and>
      getCopyDescriptorsWithWork (oldBuildInfo e cfg p w) V ds = Inr []"
  proof -
    have "\<not> configChanged e cfg p w" using a not_configChanged_if_upToDate by blast
    then have "afterConfigCheck e cfg p w = w" by (simp add: afterConfigCheck_def)
    then show ?thesis using a by (simp add: copyFilesInnerAsync_unfold)
  qed
qed

theorem no_descriptors_returns_at_once_witness:
  "copyFilesAsync exampleEnv [exampleEmptyOperation] exampleBuildInfoPath exampleWorld =
     (None, exampleWorld) \<and>
   files exampleWorld exampleBuildInfoPath = None \<and>
   copyFilesInnerAsync exampleEnv exampleDescriptors exampleConfigHash exampleBuildInfoPath
       exampleWorldAfterFirstRun =
     (None, writeLine nothingToDoLine exampleWorldAfterFirstRun)"
proof -
  have none: "getCopyDescriptorsAsync exampleEnv [exampleEmptyOperation] (files exampleWorld) = Inr []"
    by (rule example_empty_descriptors)
  have upToDate: "exampleDescriptors \<noteq> [] \<and>
      hashInputFiles exampleEnv (files exampleWorldAfterFirstRun) (allInputFiles exampleDescriptors) =
        Inr [(''/src/a.txt'', ''sha256:hello''), (''/src/b.txt'', ''sha256:world'')] \<and>
      getCopyDescriptorsWithWork
        (oldBuildInfo exampleEnv exampleConfigHash exampleBuildInfoPath exampleWorldAfterFirstRun)
        [(''/src/a.txt'', ''sha256:hello''), (''/src/b.txt'', ''sha256:world'')] exampleDescriptors =
        Inr []"
    by (simp add: example_inputs example_hash_after example_diff_after)
       (simp add: exampleDescriptors_def)
  have first: "files exampleWorld exampleBuildInfoPath = None"
    by (simp add: exampleWorld_def exampleBuildInfoPath_def)
  note inst1 = no_descriptors_returns_at_once
    [of exampleEnv exampleConfigHash exampleBuildInfoPath exampleWorld "[exampleEmptyOperation]"]
  note inst2 = no_descriptors_returns_at_once
    [of exampleEnv exampleConfigHash exampleBuildInfoPath exampleWorldAfterFirstRun "[]"
        exampleDescriptors
        "[(''/src/a.txt'', ''sha256:hello''), (''/src/b.txt'', ''sha256:world'')]"]
  show ?thesis using inst1 inst2 none upToDate first by blast
qed

subsection \<open>C10: an omitted hardlink flag\<close>

text \<open>
  C10. An operation whose hardlink flag is omitted resolves to descriptors whose hardlink
  flag is false. A descriptor whose flag is false is transferred by
  \<^verbatim>\<open>FileSystem.copyFilesAsync\<close> and counted as copied. Declaring the same source for the
  same destination once with the flag false and once with the flag omitted, in either
  order, raises no conflict: the second insertion leaves the map as it is, and
  resolving an operation followed by its copy without the flag gives the descriptors of
  the operation alone.
\<close>

theorem omitted_hardlink_means_copy:
  "(copy_operation.hardlink c = None \<and> Map_get m (resolvedDestinationPath e c D s) = None \<longrightarrow>
      addCopyDescriptor e c D s m =
        Inr (Map_set m (resolvedDestinationPath e c D s)
              \<lparr> sourcePath = s, destinationPath = resolvedDestinationPath e c D s,
                hardlink = False \<rparr>)) \<and>
   (\<not> copy_descriptor.hardlink d \<longrightarrow>
      transferOne e d st =
        (case FileSystem_copyFiles e (copy_descriptor.sourcePath d) (destinationPath d)
                (files (current st)) of
           None \<Rightarrow>
             (Some (CopyFilesError (copy_descriptor.sourcePath d) (destinationPath d)),
              st\<lparr> copiedFileCount := copiedFileCount st + 1 \<rparr>)
         | Some fs' \<Rightarrow>
             (None,
              st\<lparr> copiedFileCount := copiedFileCount st + 1,
                  current := writeVerboseLine
                    (copiedLine (copy_descriptor.sourcePath d) (destinationPath d))
                    ((current st)\<lparr> files := fs' \<rparr>) \<rparr>))) \<and>
   ((copy_operation.hardlink c1 = Some False \<and> copy_operation.hardlink c2 = None \<or>
     copy_operation.hardlink c1 = None \<and> copy_operation.hardlink c2 = Some False) \<and>
    resolvedDestinationPath e c1 D1 s = resolvedDestinationPath e c2 D2 s \<and>
    addCopyDescriptor e c1 D1 s m = Inr m' \<longrightarrow>
      addCopyDescriptor e c2 D2 s m' = Inr m') \<and>
   (copy_operation.hardlink c1 = Some False \<and>
    getFileSelectionSpecifierPaths e (c1\<lparr> copy_operation.hardlink := None \<rparr>) fs =
      getFileSelectionSpecifierPaths e c1 fs \<and>
    getCopyDescriptorsAsync e [c1] fs = Inr ds \<longrightarrow>
      getCopyDescriptorsAsync e [c1, c1\<lparr> copy_operation.hardlink := None \<rparr>] fs = Inr ds)"
proof (intro conjI impI)
  assume "copy_operation.hardlink c = None \<and> Map_get m (resolvedDestinationPath e c D s) = None"
  then show "addCopyDescriptor e c D s m =
        Inr (Map_set m (resolvedDestinationPath e c D s)
              \<lparr> sourcePath = s, destinationPath = resolvedDestinationPath e c D s,
                hardlink = False \<rparr>)"
    by (simp add: addCopyDescriptor_def truthy_def Let_def)
next
  assume "\<not> copy_descriptor.hardlink d"
  then show "transferOne e d st =
        (case FileSystem_copyFiles e (copy_descriptor.sourcePath d) (destinationPath d)
                (files (current st)) of
           None \<Rightarrow>
             (Some (CopyFilesError (copy_descriptor.sourcePath d) (destinationPath d)),
              st\<lparr> copiedFileCount := copiedFileCount st + 1 \<rparr>)
         | Some fs' \<Rightarrow>
             (None,
              st\<lparr> copiedFileCount := copiedFileCount st + 1,
                  current := writeVerboseLine
                    (copiedLine (copy_descriptor.sourcePath d) (destinationPath d))
                    ((current st)\<lparr> files := fs' \<rparr>) \<rparr>))"
    by (simp add: transferOne_def Let_def split: option.split)
next
  assume a: "(copy_operation.hardlink c1 = Some False \<and> copy_operation.hardlink c2 = None \<or>
     copy_operation.hardlink c1 = None \<and> copy_operation.hardlink c2 = Some False) \<and>
    resolvedDestinationPath e c1 D1 s = resolvedDestinationPath e c2 D2 s \<and>
    addCopyDescriptor e c1 D1 s m = Inr m'"
  then obtain d' where d': "Map_get m' (resolvedDestinationPath e c1 D1 s) = Some d'"
    "copy_descriptor.sourcePath d' = s"
    "copy_descriptor.hardlink d' = truthy (copy_operation.hardlink c1)"
    using addCopyDescriptor_Inr_lookup by blast
  have "truthy (copy_operation.hardlink c1) = truthy (copy_operation.hardlink c2)"
    using a by (auto simp: truthy_def)
  then show "addCopyDescriptor e c2 D2 s m' = Inr m'"
    using d' a by (intro addCopyDescriptor_present[of m' e c2 D2 s d']) simp_all
next
  assume a: "copy_operation.hardlink c1 = Some False \<and>
    getFileSelectionSpecifierPaths e (c1\<lparr> copy_operation.hardlink := None \<rparr>) fs =
      getFileSelectionSpecifierPaths e c1 fs \<and>
    getCopyDescriptorsAsync e [c1] fs = Inr ds"
  have again: "addCopyOperation e fs (c1\<lparr> copy_operation.hardlink := None \<rparr>) ds = Inr ds"
    using a by (intro readding_operation_is_noop[of e c1 fs ds _ None]) (simp_all add: truthy_def)
  have "addCopyOperation e fs c1 [] = Inr ds"
    using a by (simp add: getCopyDescriptorsAsync_def split: sum.splits)
  then show "getCopyDescriptorsAsync e [c1, c1\<lparr> copy_operation.hardlink := None \<rparr>] fs = Inr ds"
    using again by (simp add: getCopyDescriptorsAsync_def)
qed

theorem omitted_hardlink_means_copy_witness:
  "addCopyDescriptor exampleEnv exampleOmittedOperation ''/out'' ''/src/a.txt'' [] =
     Inr [(''/out/a.txt'', exampleDescriptorA)] \<and>
   copy_descriptor.hardlink exampleDescriptorA = False \<and>
   transferOne exampleEnv exampleDescriptorA
       \<lparr> copiedFileCount = 0, linkedFileCount = 0, current = exampleWorld \<rparr> =
     (None, \<lparr> copiedFileCount = 1, linkedFileCount = 0, current = exampleWorldPartial \<rparr>) \<and>
   addCopyDescriptor exampleEnv exampleOmittedOperation ''/out'' ''/src/a.txt''
       [(''/out/a.txt'', exampleDescriptorA)] =
     Inr [(''/out/a.txt'', exampleDescriptorA)] \<and>
   getCopyDescriptorsAsync exampleEnv [exampleOperation, exampleOmittedOperation]
       (files exampleWorld) = Inr exampleDescriptors"
proof -
  note inst = omitted_hardlink_means_copy
    [of exampleOmittedOperation "[]" exampleEnv "''/out''" "''/src/a.txt''"
        exampleDescriptorA
        "\<lparr> copiedFileCount = 0, linkedFileCount = 0, current = exampleWorld \<rparr>"
        exampleOperation exampleOmittedOperation "''/out''" "''/out''"
        "[(''/out/a.txt'', exampleDescriptorA)]" "files exampleWorld" exampleDescriptors]
  have fresh: "copy_operation.hardlink exampleOmittedOperation = None \<and>
      Map_get [] (resolvedDestinationPath exampleEnv exampleOmittedOperation ''/out'' ''/src/a.txt'') =
        None"
    by (simp add: example_omitted_fields Map_get_def)
  have inserted: "addCopyDescriptor exampleEnv exampleOmittedOperation ''/out'' ''/src/a.txt'' [] =
     Inr [(''/out/a.txt'', exampleDescriptorA)]"
  proof -
    have "addCopyDescriptor exampleEnv exampleOmittedOperation ''/out'' ''/src/a.txt'' [] =
        Inr (Map_set []
              (resolvedDestinationPath exampleEnv exampleOmittedOperation ''/out'' ''/src/a.txt'')
              \<lparr> sourcePath = ''/src/a.txt'',
                destinationPath =
                  resolvedDestinationPath exampleEnv exampleOmittedOperation ''/out'' ''/src/a.txt'',
                hardlink = False \<rparr>)"
      using inst fresh by blast
    then show ?thesis
      by (simp add: example_omitted_resolved example_resolved exampleDescriptorA_def)
  qed
  have plain: "\<not> copy_descriptor.hardlink exampleDescriptorA"
    by (simp add: example_sources)
  have copied: "transferOne exampleEnv exampleDescriptorA
       \<lparr> copiedFileCount = 0, linkedFileCount = 0, current = exampleWorld \<rparr> =
     (None, \<lparr> copiedFileCount = 1, linkedFileCount = 0, current = exampleWorldPartial \<rparr>)"
  proof -
    let ?st = "\<lparr> copiedFileCount = 0, linkedFileCount = 0, current = exampleWorld \<rparr>"
    have "transferOne exampleEnv exampleDescriptorA ?st =
        (case FileSystem_copyFiles exampleEnv (copy_descriptor.sourcePath exampleDescriptorA)
                (destinationPath exampleDescriptorA) (files (current ?st)) of
           None \<Rightarrow>
             (Some (CopyFilesError (copy_descriptor.sourcePath exampleDescriptorA)
                      (destinationPath exampleDescriptorA)),
              ?st\<lparr> copiedFileCount := copiedFileCount ?st + 1 \<rparr>)
         | Some fs' \<Rightarrow>
             (None,
              ?st\<lparr> copiedFileCount := copiedFileCount ?st + 1,
                   current := writeVerboseLine
                     (copiedLine (copy_descriptor.sourcePath exampleDescriptorA)
                        (destinationPath exampleDescriptorA))
                     ((current ?st)\<lparr> files := fs' \<rparr>) \<rparr>))"
      using inst plain by blast
    then show ?thesis
      by (simp add: example_sources example_copy exampleCopy_def exampleWorld_def
            exampleWorldPartial_def writeVerboseLine_def)
  qed
  have again: "(copy_operation.hardlink exampleOperation = Some False \<and>
        copy_operation.hardlink exampleOmittedOperation = None \<or>
      copy_operation.hardlink exampleOperation = None \<and>
        copy_operation.hardlink exampleOmittedOperation = Some False) \<and>
      resolvedDestinationPath exampleEnv exampleOperation ''/out'' ''/src/a.txt'' =
        resolvedDestinationPath exampleEnv exampleOmittedOperation ''/out'' ''/src/a.txt'' \<and>
      addCopyDescriptor exampleEnv exampleOperation ''/out'' ''/src/a.txt'' [] =
        Inr [(''/out/a.txt'', exampleDescriptorA)]"
    by (simp add: example_fields example_omitted_fields example_omitted_resolved example_add_first)
  have redeclared: "addCopyDescriptor exampleEnv exampleOmittedOperation ''/out'' ''/src/a.txt''
       [(''/out/a.txt'', exampleDescriptorA)] = Inr [(''/out/a.txt'', exampleDescriptorA)]"
    using inst again by blast
  have both: "copy_operation.hardlink exampleOperation = Some False \<and>
      getFileSelectionSpecifierPaths exampleEnv
        (exampleOperation\<lparr> copy_operation.hardlink := None \<rparr>) (files exampleWorld) =
        getFileSelectionSpecifierPaths exampleEnv exampleOperation (files exampleWorld) \<and>
      getCopyDescriptorsAsync exampleEnv [exampleOperation] (files exampleWorld) =
        Inr exampleDescriptors"
    using example_omitted_fields(2)
    by (simp add: example_fields example_descriptors exampleOmittedOperation_def)
  have resolved: "getCopyDescriptorsAsync exampleEnv [exampleOperation, exampleOmittedOperation]
       (files exampleWorld) = Inr exampleDescriptors"
    using inst both unfolding exampleOmittedOperation_def by blast
  show ?thesis using inserted plain copied redeclared resolved by simp
qed

end
